theory Spec2Isabelle
  imports Main "HOL-Library.Word" "HOL-Library.AList"
begin

section \<open>JavaScript strings\<close>

text \<open>
  A JavaScript string is a sequence of 16-bit code units. The literals of the source are
  ASCII, written here as HOL strings and converted with \<open>js\<close>.
\<close>

type_synonym jsstring = "16 word list"

definition js :: "string \<Rightarrow> jsstring" where
  "js s = map (\<lambda>c. of_nat (of_char c)) s"

text \<open>
  The code units that \<open>String.prototype.trim\<close> removes: the WhiteSpace and LineTerminator
  productions of ECMAScript (TAB, LF, VT, FF, CR, SP, NBSP, the Unicode space separators,
  LS, PS and the byte order mark).
\<close>

definition isWhiteSpace :: "16 word \<Rightarrow> bool" where
  "isWhiteSpace c \<longleftrightarrow>
     c = 0x09 \<or> c = 0x0A \<or> c = 0x0B \<or> c = 0x0C \<or> c = 0x0D \<or> c = 0x20 \<or> c = 0xA0 \<or>
     c = 0x1680 \<or> (0x2000 \<le> c \<and> c \<le> 0x200A) \<or> c = 0x2028 \<or> c = 0x2029 \<or>
     c = 0x202F \<or> c = 0x205F \<or> c = 0x3000 \<or> c = 0xFEFF"

text \<open>\<open>s.trim()\<close>: white space is dropped at the front and at the back.\<close>

definition String_trim :: "jsstring \<Rightarrow> jsstring" where
  "String_trim s = rev (dropWhile isWhiteSpace (rev (dropWhile isWhiteSpace s)))"

text \<open>
  \<open>s.replace(pat, rep)\<close> for a string pattern: the first occurrence of \<open>pat\<close> is replaced,
  wherever it is; a string without one is returned as it is. (The handler's replacement is
  the empty string, so the \<open>$\<close> patterns of a replacement play no part.)
\<close>

fun String_replace :: "jsstring \<Rightarrow> jsstring \<Rightarrow> jsstring \<Rightarrow> jsstring" where
  "String_replace pat rep [] = (if pat = [] then rep else [])"
| "String_replace pat rep (c # cs) =
     (if take (length pat) (c # cs) = pat then rep @ drop (length pat) (c # cs)
      else c # String_replace pat rep cs)"

text \<open>
  \<open>s.split(sep)\<close> for a separator of one code unit: the pieces between the separators, in
  order; the empty string gives one empty piece.
\<close>

fun String_split :: "16 word \<Rightarrow> jsstring \<Rightarrow> jsstring list" where
  "String_split sep [] = [[]]"
| "String_split sep (c # cs) =
     (if c = sep then [] # String_split sep cs
      else (case String_split sep cs of
              [] \<Rightarrow> [[c]]
            | seg # segs \<Rightarrow> (c # seg) # segs))"

text \<open>\<open>xs[i]\<close>: \<open>undefined\<close> (here \<open>None\<close>) out of range.\<close>

fun element :: "'a list \<Rightarrow> nat \<Rightarrow> 'a option" where
  "element [] i = None"
| "element (x # xs) 0 = Some x"
| "element (x # xs) (Suc i) = element xs i"

text \<open>Truthiness of a value that is a string or \<open>undefined\<close>: a non-empty string.\<close>

fun truthy :: "jsstring option \<Rightarrow> bool" where
  "truthy None = False"
| "truthy (Some s) = (s \<noteq> [])"

section \<open>The client store\<close>

record ClientData =
  name :: jsstring
  downloadLink :: jsstring

text \<open>
  The store is a JavaScript \<open>Map\<close>: its entries in insertion order, one per key. Setting a
  key that is present replaces the value where the entry stands; setting a new key appends
  the entry; \<open>AList.update\<close> does exactly this.
\<close>

type_synonym ClientStore = "(jsstring \<times> ClientData) list"

text \<open>An entry of \<open>getAll\<close>: the record \<open>{ id, ...data }\<close>.\<close>

record ClientWithId = ClientData +
  clientId :: jsstring

definition ClientStore_getAll :: "ClientStore \<Rightarrow> ClientWithId list" where
  "ClientStore_getAll store =
     map (\<lambda>(k, d). \<lparr>name = name d, downloadLink = downloadLink d, clientId = k\<rparr>) store"

definition ClientStore_get :: "ClientStore \<Rightarrow> jsstring \<Rightarrow> ClientData option" where
  "ClientStore_get store k = map_of store k"

definition ClientStore_set :: "ClientStore \<Rightarrow> jsstring \<Rightarrow> ClientData \<Rightarrow> ClientStore" where
  "ClientStore_set store k d = AList.update k d store"

definition ClientStore_has :: "ClientStore \<Rightarrow> jsstring \<Rightarrow> bool" where
  "ClientStore_has store k \<longleftrightarrow> k \<in> set (map fst store)"

definition ClientStore_delete :: "ClientStore \<Rightarrow> jsstring \<Rightarrow> bool \<times> ClientStore" where
  "ClientStore_delete store k = (ClientStore_has store k, AList.delete k store)"

section \<open>Requests, responses and parsed bodies\<close>

record event =
  httpMethod :: jsstring
  path :: jsstring
  eventBody :: "jsstring option"

text \<open>The errors the handler's outer \<open>catch\<close> can see.\<close>

datatype exn = TypeError

text \<open>
  The value handed to \<open>JSON.stringify\<close> for the response body: an object with an
  \<open>error\<close> text, the object of the 500 response (its \<open>message\<close> is the caught error's), a
  client record, or the list of \<open>getAll\<close>.
\<close>

datatype payload =
    ErrorBody string
  | ServerErrorBody string exn
  | ClientBody ClientData
  | ClientsBody "ClientWithId list"

record response =
  statusCode :: nat
  headers :: "(string \<times> string) list"
  body :: "payload option"

definition corsHeaders :: "(string \<times> string) list" where
  "corsHeaders =
     [(''Access-Control-Allow-Origin'', ''*''),
      (''Access-Control-Allow-Headers'', ''Content-Type''),
      (''Access-Control-Allow-Methods'', ''GET, POST, PUT, DELETE, OPTIONS'')]"

definition respond :: "nat \<Rightarrow> payload \<Rightarrow> response" where
  "respond code b = \<lparr>statusCode = code, headers = corsHeaders, body = Some b\<rparr>"

text \<open>
  The values \<open>JSON.parse\<close> returns. The handler never looks into a number, so the type of
  numbers is left open.
\<close>

datatype 'n json =
    JNull
  | JBool bool
  | JNumber 'n
  | JString jsstring
  | JArray "'n json list"
  | JObject "(jsstring \<times> 'n json) list"

text \<open>
  Reading the property \<open>name\<close> or \<open>downloadLink\<close> of a parsed value that is not \<open>null\<close>: an
  object gives its own property (its properties are listed one entry per key), or
  \<open>undefined\<close> (here \<open>None\<close>) without one; a string, a number, a boolean or an array has
  neither property. (Other keys, such as \<open>length\<close>, are never read.)
\<close>

fun getProperty :: "'n json \<Rightarrow> jsstring \<Rightarrow> 'n json option" where
  "getProperty (JObject props) k = map_of props k"
| "getProperty _ k = None"

text \<open>\<open>const { name, downloadLink } = body\<close>: destructuring \<open>null\<close> throws.\<close>

fun destructure :: "'n json \<Rightarrow> exn + ('n json option \<times> 'n json option)" where
  "destructure JNull = Inl TypeError"
| "destructure b = Inr (getProperty b (js ''name''), getProperty b (js ''downloadLink''))"

text \<open>
  \<open>v?.trim()\<close>: \<open>undefined\<close> for \<open>undefined\<close> and \<open>null\<close>, the trimmed string for a string;
  any other parsed value has no callable \<open>trim\<close>, and the call throws.
\<close>

fun optional_trim :: "'n json option \<Rightarrow> exn + jsstring option" where
  "optional_trim None = Inr None"
| "optional_trim (Some JNull) = Inr None"
| "optional_trim (Some (JString s)) = Inr (Some (String_trim s))"
| "optional_trim (Some _) = Inl TypeError"

text \<open>
  \<open>!name?.trim() || !downloadLink?.trim()\<close>, evaluated from the left: the link is not
  looked at when the name is already missing. The result is \<open>None\<close> when the condition
  holds, and otherwise the two trimmed strings, which are what \<open>name.trim()\<close> and
  \<open>downloadLink.trim()\<close> give afterwards.
\<close>

definition required_fields ::
  "'n json option \<Rightarrow> 'n json option \<Rightarrow> exn + (jsstring \<times> jsstring) option" where
  "required_fields n l =
     (case optional_trim n of
        Inl e \<Rightarrow> Inl e
      | Inr None \<Rightarrow> Inr None
      | Inr (Some trimmedName) \<Rightarrow>
          if trimmedName = [] then Inr None
          else (case optional_trim l of
                  Inl e \<Rightarrow> Inl e
                | Inr None \<Rightarrow> Inr None
                | Inr (Some trimmedLink) \<Rightarrow>
                    if trimmedLink = [] then Inr None
                    else Inr (Some (trimmedName, trimmedLink))))"

section \<open>The handler\<close>

definition api_prefix :: jsstring where
  "api_prefix = js ''/.netlify/functions/api/''"

definition slash :: "16 word" where
  "slash = 0x2F"

definition segments :: "event \<Rightarrow> jsstring list" where
  "segments ev = String_split slash (String_replace api_prefix [] (path ev))"

text \<open>\<open>event.body || '{}'\<close>: an absent or empty body is read as the empty object.\<close>

definition bodyText :: "event \<Rightarrow> jsstring" where
  "bodyText ev =
     (case eventBody ev of
        None \<Rightarrow> js ''{}''
      | Some s \<Rightarrow> if s = [] then js ''{}'' else s)"

text \<open>
  A branch of the handler returns a response and the store it leaves, or throws with the
  store as it stands when it throws. \<open>JSON_parse\<close> and \<open>URL_ok\<close> are the two services of
  the runtime: \<open>JSON_parse s\<close> is the value of \<open>JSON.parse(s)\<close>, \<open>None\<close> when it throws,
  and \<open>URL_ok s\<close> holds when \<open>new URL(s)\<close> does not throw.
\<close>

type_synonym outcome = "(exn \<times> ClientStore) + (response \<times> ClientStore)"

definition get_clients :: "ClientStore \<Rightarrow> outcome" where
  "get_clients clientStore =
     Inr (respond 200 (ClientsBody (ClientStore_getAll clientStore)), clientStore)"

definition get_client :: "jsstring \<Rightarrow> ClientStore \<Rightarrow> outcome" where
  "get_client k clientStore =
     (case ClientStore_get clientStore k of
        None \<Rightarrow> Inr (respond 404 (ErrorBody ''Client not found''), clientStore)
      | Some client \<Rightarrow> Inr (respond 200 (ClientBody client), clientStore))"

definition post_clients ::
  "(jsstring \<Rightarrow> 'n json option) \<Rightarrow> (jsstring \<Rightarrow> bool) \<Rightarrow> event \<Rightarrow> ClientStore \<Rightarrow> outcome" where
  "post_clients JSON_parse URL_ok ev clientStore =
     (case JSON_parse (bodyText ev) of
        None \<Rightarrow> Inr (respond 400 (ErrorBody ''Invalid request body''), clientStore)
      | Some b \<Rightarrow>
         (case destructure b of
            Inl e \<Rightarrow> Inl (e, clientStore)
          | Inr (n, l) \<Rightarrow>
             (case required_fields n l of
                Inl e \<Rightarrow> Inl (e, clientStore)
              | Inr None \<Rightarrow>
                  Inr (respond 400 (ErrorBody ''Name and download link are required''),
                       clientStore)
              | Inr (Some (trimmedName, trimmedLink)) \<Rightarrow>
                  if ClientStore_has clientStore trimmedName
                  then Inr (respond 409 (ErrorBody ''Client with this name already exists''),
                            clientStore)
                  else if \<not> URL_ok trimmedLink
                  then Inr (respond 400 (ErrorBody ''Invalid download link URL''), clientStore)
                  else Inr (respond 201
                              (ClientBody \<lparr>name = trimmedName, downloadLink = trimmedLink\<rparr>),
                            ClientStore_set clientStore trimmedName
                              \<lparr>name = trimmedName, downloadLink = trimmedLink\<rparr>))))"

definition put_client ::
  "(jsstring \<Rightarrow> 'n json option) \<Rightarrow> (jsstring \<Rightarrow> bool) \<Rightarrow> jsstring \<Rightarrow> event \<Rightarrow> ClientStore
     \<Rightarrow> outcome" where
  "put_client JSON_parse URL_ok k ev clientStore =
     (case JSON_parse (bodyText ev) of
        None \<Rightarrow> Inr (respond 400 (ErrorBody ''Invalid request body''), clientStore)
      | Some b \<Rightarrow>
         (case destructure b of
            Inl e \<Rightarrow> Inl (e, clientStore)
          | Inr (n, l) \<Rightarrow>
             (case required_fields n l of
                Inl e \<Rightarrow> Inl (e, clientStore)
              | Inr None \<Rightarrow>
                  Inr (respond 400 (ErrorBody ''Name and download link are required''),
                       clientStore)
              | Inr (Some (trimmedName, trimmedLink)) \<Rightarrow>
                  if \<not> ClientStore_has clientStore k
                  then Inr (respond 404 (ErrorBody ''Client not found''), clientStore)
                  else if \<not> URL_ok trimmedLink
                  then Inr (respond 400 (ErrorBody ''Invalid download link URL''), clientStore)
                  else Inr (respond 200
                              (ClientBody \<lparr>name = trimmedName, downloadLink = trimmedLink\<rparr>),
                            ClientStore_set clientStore k
                              \<lparr>name = trimmedName, downloadLink = trimmedLink\<rparr>))))"

definition delete_client :: "jsstring \<Rightarrow> ClientStore \<Rightarrow> outcome" where
  "delete_client k clientStore =
     (if \<not> ClientStore_has clientStore k
      then Inr (respond 404 (ErrorBody ''Client not found''), clientStore)
      else Inr (\<lparr>statusCode = 204, headers = corsHeaders, body = None\<rparr>,
                snd (ClientStore_delete clientStore k)))"

text \<open>The body of the handler's \<open>try\<close>: the routes, tested in the order of the source.\<close>

definition route ::
  "(jsstring \<Rightarrow> 'n json option) \<Rightarrow> (jsstring \<Rightarrow> bool) \<Rightarrow> event \<Rightarrow> ClientStore \<Rightarrow> outcome" where
  "route JSON_parse URL_ok ev clientStore =
     (let segs = segments ev; method = httpMethod ev in
      if method = js ''GET'' \<and> element segs 0 = Some (js ''clients'') \<and> \<not> truthy (element segs 1)
      then get_clients clientStore
      else if method = js ''GET'' \<and> element segs 0 = Some (js ''clients'') \<and> truthy (element segs 1)
      then get_client (the (element segs 1)) clientStore
      else if method = js ''POST'' \<and> element segs 0 = Some (js ''clients'')
      then post_clients JSON_parse URL_ok ev clientStore
      else if method = js ''PUT'' \<and> element segs 0 = Some (js ''clients'') \<and> truthy (element segs 1)
      then put_client JSON_parse URL_ok (the (element segs 1)) ev clientStore
      else if method = js ''DELETE'' \<and> element segs 0 = Some (js ''clients'')
              \<and> truthy (element segs 1)
      then delete_client (the (element segs 1)) clientStore
      else Inr (respond 404 (ErrorBody ''Endpoint not found''), clientStore))"

text \<open>
  The handler: the preflight answer, then the routes, with every thrown error caught and
  answered by 500. (The log line written by \<open>console.error\<close> is not modelled.)
\<close>

definition handler ::
  "(jsstring \<Rightarrow> 'n json option) \<Rightarrow> (jsstring \<Rightarrow> bool) \<Rightarrow> event \<Rightarrow> ClientStore
     \<Rightarrow> response \<times> ClientStore" where
  "handler JSON_parse URL_ok ev clientStore =
     (if httpMethod ev = js ''OPTIONS''
      then (\<lparr>statusCode = 204, headers = corsHeaders, body = None\<rparr>, clientStore)
      else (case route JSON_parse URL_ok ev clientStore of
              Inr result \<Rightarrow> result
            | Inl (error, store) \<Rightarrow>
                (respond 500 (ServerErrorBody ''Internal server error'' error), store)))"

text \<open>The handler's \<open>catch\<close> on its own, for the lemmas on the single branches.\<close>

definition caught :: "outcome \<Rightarrow> response \<times> ClientStore" where
  "caught out =
     (case out of
        Inr result \<Rightarrow> result
      | Inl (e, s) \<Rightarrow> (respond 500 (ServerErrorBody ''Internal server error'' e), s))"

text \<open>A sequence of requests, handled one after the other on the same store.\<close>

fun handle_all ::
  "(jsstring \<Rightarrow> 'n json option) \<Rightarrow> (jsstring \<Rightarrow> bool) \<Rightarrow> event list \<Rightarrow> ClientStore
     \<Rightarrow> ClientStore" where
  "handle_all JSON_parse URL_ok [] clientStore = clientStore"
| "handle_all JSON_parse URL_ok (ev # evs) clientStore =
     handle_all JSON_parse URL_ok evs (snd (handler JSON_parse URL_ok ev clientStore))"

section \<open>Notions used in the statements\<close>

text \<open>
  The trimmed string under a key of a parsed body; empty when the property is absent or
  \<open>null\<close>.
\<close>

definition trimmed_field :: "'n json \<Rightarrow> jsstring \<Rightarrow> jsstring" where
  "trimmed_field b k =
     (case getProperty b k of Some (JString s) \<Rightarrow> String_trim s | _ \<Rightarrow> [])"

text \<open>
  The bodies the handler is written for (\<open>let body: { name?: string; downloadLink?: string }\<close>):
  a parsed value other than \<open>null\<close> whose \<open>name\<close> and \<open>downloadLink\<close> are each absent,
  \<open>null\<close> or a string.
\<close>

fun string_or_absent :: "'n json option \<Rightarrow> bool" where
  "string_or_absent None = True"
| "string_or_absent (Some JNull) = True"
| "string_or_absent (Some (JString s)) = True"
| "string_or_absent (Some _) = False"

definition body_shape :: "'n json \<Rightarrow> bool" where
  "body_shape b \<longleftrightarrow>
     b \<noteq> JNull \<and> string_or_absent (getProperty b (js ''name''))
       \<and> string_or_absent (getProperty b (js ''downloadLink''))"

text \<open>A string with no white space at its front or at its back.\<close>

definition well_trimmed :: "jsstring \<Rightarrow> bool" where
  "well_trimmed s \<longleftrightarrow> s = [] \<or> (\<not> isWhiteSpace (hd s) \<and> \<not> isWhiteSpace (last s))"

text \<open>What holds of every stored entry.\<close>

definition entry_ok :: "(jsstring \<Rightarrow> bool) \<Rightarrow> jsstring \<times> ClientData \<Rightarrow> bool" where
  "entry_ok URL_ok e \<longleftrightarrow>
     fst e \<noteq> [] \<and> well_trimmed (fst e) \<and> well_trimmed (name (snd e))
       \<and> well_trimmed (downloadLink (snd e)) \<and> URL_ok (downloadLink (snd e))"

definition store_ok :: "(jsstring \<Rightarrow> bool) \<Rightarrow> ClientStore \<Rightarrow> bool" where
  "store_ok URL_ok store = list_all (entry_ok URL_ok) store"

text \<open>
  The requests of the examples: a method, a path and a body text, written in ASCII.
\<close>

definition request :: "string \<Rightarrow> string \<Rightarrow> string option \<Rightarrow> event" where
  "request m p b = \<lparr>httpMethod = js m, path = js p, eventBody = map_option js b\<rparr>"

definition acme_json :: string where
  "acme_json = ''{\"name\":\"Acme\",\"downloadLink\":\"https://x.test/a.zip\"}''"

definition acme_corp_json :: string where
  "acme_corp_json = ''{\"name\":\"Acme Corp\",\"downloadLink\":\"https://x.test/b.zip\"}''"

definition bolt_json :: string where
  "bolt_json = ''{\"name\":\" Bolt \",\"downloadLink\":\" https://x.test/b.zip \"}''"

definition slash_json :: string where
  "slash_json = ''{\"name\":\"a/b\",\"downloadLink\":\"https://x.test/a.zip\"}''"

definition acme_bad_link_json :: string where
  "acme_bad_link_json = ''{\"name\":\"Acme\",\"downloadLink\":\"not-a-url\"}''"

text \<open>
  The two services of the runtime on the texts of the examples: what \<open>JSON.parse\<close> returns
  for each body text above, for \<open>{}\<close> and for \<open>null\<close>; and \<open>new URL\<close>, which accepts
  the two links \<open>https://x.test/a.zip\<close> and \<open>https://x.test/b.zip\<close> and rejects
  \<open>not-a-url\<close>. Both are excerpts: the examples use them at these texts only, and the
  theorems hold for every \<open>JSON_parse\<close> and \<open>URL_ok\<close>.
\<close>

definition JSON_parse_excerpt :: "jsstring \<Rightarrow> unit json option" where
  "JSON_parse_excerpt s =
     (if s = js ''{}'' then Some (JObject [])
      else if s = js ''null'' then Some JNull
      else if s = js acme_json
      then Some (JObject [(js ''name'', JString (js ''Acme'')),
                          (js ''downloadLink'', JString (js ''https://x.test/a.zip''))])
      else if s = js acme_corp_json
      then Some (JObject [(js ''name'', JString (js ''Acme Corp'')),
                          (js ''downloadLink'', JString (js ''https://x.test/b.zip''))])
      else if s = js bolt_json
      then Some (JObject [(js ''name'', JString (js '' Bolt '')),
                          (js ''downloadLink'', JString (js '' https://x.test/b.zip ''))])
      else if s = js slash_json
      then Some (JObject [(js ''name'', JString (js ''a/b'')),
                          (js ''downloadLink'', JString (js ''https://x.test/a.zip''))])
      else if s = js acme_bad_link_json
      then Some (JObject [(js ''name'', JString (js ''Acme'')),
                          (js ''downloadLink'', JString (js ''not-a-url''))])
      else None)"

definition URL_ok_excerpt :: "jsstring \<Rightarrow> bool" where
  "URL_ok_excerpt s \<longleftrightarrow> s = js ''https://x.test/a.zip'' \<or> s = js ''https://x.test/b.zip''"

section \<open>Strings and paths\<close>

lemma String_replace_prefix: "pat \<noteq> [] \<Longrightarrow> String_replace pat rep (pat @ s) = rep @ s"
  by (cases pat) auto

lemma String_split_nonempty: "String_split sep s \<noteq> []"
  by (induction s) (auto split: list.splits)

lemma String_split_append:
  "sep \<notin> set a \<Longrightarrow> String_split sep (a @ sep # b) = a # String_split sep b"
  by (induction a) (auto split: list.splits)

lemma String_split_nosep: "sep \<notin> set s \<Longrightarrow> String_split sep s = [s]"
  by (induction s) (auto split: list.splits)

lemma String_split_pieces: "seg \<in> set (String_split sep s) \<Longrightarrow> sep \<notin> set seg"
  by (induction s arbitrary: seg) (auto split: list.splits if_splits)

lemma element_in_set: "element xs i = Some x \<Longrightarrow> x \<in> set xs"
  by (induction xs i rule: element.induct) auto

text \<open>
  No segment of a path holds a slash: a key with one is out of the reach of every GET, PUT
  and DELETE.
\<close>

lemma segment_without_slash: "element (segments ev) i = Some k \<Longrightarrow> slash \<notin> set k"
  unfolding segments_def by (rule String_split_pieces) (rule element_in_set)

text \<open>The segments of the path \<open>/clients/{k}\<close> behind the routing prefix.\<close>

lemma segments_client_path:
  assumes "path ev = api_prefix @ js ''clients/'' @ k"
  shows "segments ev = js ''clients'' # String_split slash k"
proof -
  have "api_prefix \<noteq> []"
    by (simp add: api_prefix_def js_def)
  then have "String_replace api_prefix [] (path ev) = js ''clients/'' @ k"
    using assms String_replace_prefix [of api_prefix "[]"] by simp
  moreover have "js ''clients/'' @ k = js ''clients'' @ slash # k"
    by (simp add: js_def slash_def)
  moreover have "slash \<notin> set (js ''clients'')"
    by (simp add: js_def slash_def)
  ultimately show ?thesis
    by (simp add: segments_def String_split_append)
qed

lemma String_trim_well_trimmed: "well_trimmed (String_trim s)"
proof (cases "String_trim s = []")
  case True
  then show ?thesis by (simp add: well_trimmed_def)
next
  case False
  define t where "t = dropWhile isWhiteSpace s"
  define u where "u = dropWhile isWhiteSpace (rev t)"
  have trim: "String_trim s = rev u"
    by (simp add: String_trim_def t_def u_def)
  with False have u: "u \<noteq> []" by simp
  then have "\<not> isWhiteSpace (hd u)"
    unfolding u_def by (rule hd_dropWhile)
  then have at_end: "\<not> isWhiteSpace (last (String_trim s))"
    using u by (simp add: trim last_rev)
  from u have t: "t \<noteq> []"
    by (auto simp: u_def)
  then have "\<not> isWhiteSpace (hd t)"
    unfolding t_def by (rule hd_dropWhile)
  moreover have "hd (rev u) = hd t"
  proof -
    have "rev t = takeWhile isWhiteSpace (rev t) @ u"
      by (simp add: u_def)
    then have "t = rev u @ rev (takeWhile isWhiteSpace (rev t))"
      by (metis rev_append rev_rev_ident)
    then show ?thesis
      using u by (metis hd_append2 rev_is_Nil_conv)
  qed
  ultimately have "\<not> isWhiteSpace (hd (String_trim s))"
    by (simp add: trim)
  with at_end show ?thesis
    by (simp add: well_trimmed_def)
qed

section \<open>The store operations\<close>

lemma ClientStore_set_fresh:
  "\<not> ClientStore_has st k \<Longrightarrow> ClientStore_set st k d = st @ [(k, d)]"
  by (induction st) (auto simp: ClientStore_has_def ClientStore_set_def)

lemma ClientStore_set_keys:
  "ClientStore_has st k \<Longrightarrow> map fst (ClientStore_set st k d) = map fst st"
  by (induction st) (auto simp: ClientStore_has_def ClientStore_set_def)

lemma ClientStore_get_set:
  "ClientStore_get (ClientStore_set st k d) k' = (if k' = k then Some d else ClientStore_get st k')"
  by (simp add: ClientStore_get_def ClientStore_set_def update_conv')

lemma ClientStore_get_delete:
  "ClientStore_get (snd (ClientStore_delete st k)) k' =
     (if k' = k then None else ClientStore_get st k')"
  by (simp add: ClientStore_get_def ClientStore_delete_def delete_conv')

lemma ClientStore_has_get: "ClientStore_has st k \<longleftrightarrow> ClientStore_get st k \<noteq> None"
  by (simp add: ClientStore_has_def ClientStore_get_def map_of_eq_None_iff)

section \<open>The branches of the handler\<close>

lemma optional_trim_shape:
  "string_or_absent v \<Longrightarrow>
   optional_trim v = Inr (case v of Some (JString s) \<Rightarrow> Some (String_trim s) | _ \<Rightarrow> None)"
  by (cases v rule: string_or_absent.cases) auto

lemma required_fields_shape:
  assumes "string_or_absent n" "string_or_absent l"
  shows "required_fields n l =
     Inr (let tn = (case n of Some (JString s) \<Rightarrow> String_trim s | _ \<Rightarrow> []);
              tl = (case l of Some (JString s) \<Rightarrow> String_trim s | _ \<Rightarrow> [])
          in if tn = [] \<or> tl = [] then None else Some (tn, tl))"
  using assms
  by (cases n rule: string_or_absent.cases; cases l rule: string_or_absent.cases)
     (auto simp: required_fields_def)

lemma destructure_shape:
  "b \<noteq> JNull \<Longrightarrow>
   destructure b = Inr (getProperty b (js ''name''), getProperty b (js ''downloadLink''))"
  by (cases b) auto

lemma post_clients_shape:
  assumes "JSON_parse (bodyText ev) = Some b" "body_shape b"
  shows "post_clients JSON_parse URL_ok ev st =
     Inr (let n = trimmed_field b (js ''name''); l = trimmed_field b (js ''downloadLink'') in
          if n = [] \<or> l = []
          then (respond 400 (ErrorBody ''Name and download link are required''), st)
          else if ClientStore_has st n
          then (respond 409 (ErrorBody ''Client with this name already exists''), st)
          else if \<not> URL_ok l
          then (respond 400 (ErrorBody ''Invalid download link URL''), st)
          else (respond 201 (ClientBody \<lparr>name = n, downloadLink = l\<rparr>),
                ClientStore_set st n \<lparr>name = n, downloadLink = l\<rparr>))"
  using assms
  by (simp add: post_clients_def body_shape_def destructure_shape required_fields_shape
        trimmed_field_def Let_def)

lemma put_client_shape:
  assumes "JSON_parse (bodyText ev) = Some b" "body_shape b"
  shows "put_client JSON_parse URL_ok k ev st =
     Inr (let n = trimmed_field b (js ''name''); l = trimmed_field b (js ''downloadLink'') in
          if n = [] \<or> l = []
          then (respond 400 (ErrorBody ''Name and download link are required''), st)
          else if \<not> ClientStore_has st k
          then (respond 404 (ErrorBody ''Client not found''), st)
          else if \<not> URL_ok l
          then (respond 400 (ErrorBody ''Invalid download link URL''), st)
          else (respond 200 (ClientBody \<lparr>name = n, downloadLink = l\<rparr>),
                ClientStore_set st k \<lparr>name = n, downloadLink = l\<rparr>))"
  using assms
  by (simp add: put_client_def body_shape_def destructure_shape required_fields_shape
        trimmed_field_def Let_def)

lemma handler_POST:
  "httpMethod ev = js ''POST'' \<Longrightarrow> element (segments ev) 0 = Some (js ''clients'') \<Longrightarrow>
   handler JSON_parse URL_ok ev st = caught (post_clients JSON_parse URL_ok ev st)"
  by (simp add: handler_def route_def js_def caught_def)

lemma handler_PUT:
  "httpMethod ev = js ''PUT'' \<Longrightarrow> element (segments ev) 0 = Some (js ''clients'') \<Longrightarrow>
   element (segments ev) 1 = Some k \<Longrightarrow> k \<noteq> [] \<Longrightarrow>
   handler JSON_parse URL_ok ev st = caught (put_client JSON_parse URL_ok k ev st)"
  by (simp add: handler_def route_def js_def caught_def)

lemma handler_DELETE:
  "httpMethod ev = js ''DELETE'' \<Longrightarrow> element (segments ev) 0 = Some (js ''clients'') \<Longrightarrow>
   element (segments ev) 1 = Some k \<Longrightarrow> k \<noteq> [] \<Longrightarrow>
   handler JSON_parse URL_ok ev st =
     (if ClientStore_has st k
      then (\<lparr>statusCode = 204, headers = corsHeaders, body = None\<rparr>,
            snd (ClientStore_delete st k))
      else (respond 404 (ErrorBody ''Client not found''), st))"
  by (simp add: handler_def route_def js_def delete_client_def)

lemma handler_GET_one:
  "httpMethod ev = js ''GET'' \<Longrightarrow> element (segments ev) 0 = Some (js ''clients'') \<Longrightarrow>
   element (segments ev) 1 = Some k \<Longrightarrow> k \<noteq> [] \<Longrightarrow>
   handler JSON_parse URL_ok ev st =
     (case ClientStore_get st k of
        None \<Rightarrow> (respond 404 (ErrorBody ''Client not found''), st)
      | Some client \<Rightarrow> (respond 200 (ClientBody client), st))"
  by (simp add: handler_def route_def js_def get_client_def split: option.splits)

lemma handler_GET_all:
  "httpMethod ev = js ''GET'' \<Longrightarrow> element (segments ev) 0 = Some (js ''clients'') \<Longrightarrow>
   \<not> truthy (element (segments ev) 1) \<Longrightarrow>
   handler JSON_parse URL_ok ev st = (respond 200 (ClientsBody (ClientStore_getAll st)), st)"
  by (simp add: handler_def route_def js_def get_clients_def)

text \<open>
  The definitions a concrete request is evaluated with: those of the request and of the
  store, and those of the handler.
\<close>

lemmas input_defs =
  segments_def api_prefix_def slash_def js_def bodyText_def request_def
  respond_def JSON_parse_excerpt_def URL_ok_excerpt_def
  acme_json_def acme_corp_json_def bolt_json_def slash_json_def acme_bad_link_json_def
  ClientStore_has_def ClientStore_get_def ClientStore_set_def ClientStore_delete_def
  ClientStore_getAll_def String_trim_def isWhiteSpace_def trimmed_field_def body_shape_def

lemmas eval_defs =
  input_defs handler_def route_def
  post_clients_def put_client_def get_client_def get_clients_def delete_client_def
  required_fields_def

lemma handler_PUT_unrouted:
  "httpMethod ev = js ''PUT'' \<Longrightarrow>
   \<not> (element (segments ev) 0 = Some (js ''clients'') \<and> truthy (element (segments ev) 1)) \<Longrightarrow>
   handler JSON_parse URL_ok ev st = (respond 404 (ErrorBody ''Endpoint not found''), st)"
  by (auto simp: handler_def route_def js_def)

lemma segments_same_path: "path ev' = path ev \<Longrightarrow> segments ev' = segments ev"
  by (simp add: segments_def)

lemma body_shape_strings:
  "getProperty b (js ''name'') = Some (JString nm) \<Longrightarrow>
   getProperty b (js ''downloadLink'') = Some (JString dl) \<Longrightarrow>
   body_shape b \<and> trimmed_field b (js ''name'') = String_trim nm
     \<and> trimmed_field b (js ''downloadLink'') = String_trim dl"
  by (cases b) (auto simp: body_shape_def trimmed_field_def)

section \<open>Every outcome of a request\<close>

lemma optional_trim_cases:
  "optional_trim v = Inl TypeError \<and> \<not> string_or_absent v
   \<or> optional_trim v = Inr None \<and> string_or_absent v
   \<or> (\<exists>s. v = Some (JString s) \<and> optional_trim v = Inr (Some (String_trim s)))"
  by (cases v rule: optional_trim.cases) auto

lemma required_fields_other:
  "\<not> (string_or_absent n \<and> string_or_absent l) \<Longrightarrow>
   required_fields n l = Inl TypeError \<or> required_fields n l = Inr None"
  using optional_trim_cases [of n] optional_trim_cases [of l]
  by (auto simp: required_fields_def)

lemma post_clients_cases:
  "post_clients JSON_parse URL_ok ev st = Inl (TypeError, st)
   \<or> (\<exists>c m. (c = 400 \<or> c = 409) \<and>
         post_clients JSON_parse URL_ok ev st = Inr (respond c (ErrorBody m), st))
   \<or> (\<exists>b. JSON_parse (bodyText ev) = Some b \<and> body_shape b
         \<and> trimmed_field b (js ''name'') \<noteq> [] \<and> trimmed_field b (js ''downloadLink'') \<noteq> []
         \<and> \<not> ClientStore_has st (trimmed_field b (js ''name''))
         \<and> URL_ok (trimmed_field b (js ''downloadLink''))
         \<and> post_clients JSON_parse URL_ok ev st =
             Inr (respond 201 (ClientBody \<lparr>name = trimmed_field b (js ''name''),
                                           downloadLink = trimmed_field b (js ''downloadLink'')\<rparr>),
                  ClientStore_set st (trimmed_field b (js ''name''))
                    \<lparr>name = trimmed_field b (js ''name''),
                       downloadLink = trimmed_field b (js ''downloadLink'')\<rparr>))"
proof (cases "JSON_parse (bodyText ev)")
  case None
  then have "post_clients JSON_parse URL_ok ev st = Inr (respond 400 (ErrorBody ''Invalid request body''), st)"
    by (simp add: post_clients_def)
  then show ?thesis by blast
next
  case (Some b)
  show ?thesis
  proof (cases "body_shape b")
    case True
    show ?thesis
      using post_clients_shape [of JSON_parse ev b URL_ok st] Some True
      unfolding Let_def by (simp split: if_splits) blast+
  next
    case False
    show ?thesis
    proof (cases "b = JNull")
      case True
      with Some show ?thesis by (simp add: post_clients_def)
    next
      case nonnull: False
      with False have "\<not> (string_or_absent (getProperty b (js ''name''))
          \<and> string_or_absent (getProperty b (js ''downloadLink'')))"
        by (simp add: body_shape_def)
      from required_fields_other [OF this] Some nonnull
      have "post_clients JSON_parse URL_ok ev st = Inl (TypeError, st)
          \<or> post_clients JSON_parse URL_ok ev st
              = Inr (respond 400 (ErrorBody ''Name and download link are required''), st)"
        by (auto simp: post_clients_def destructure_shape)
      then show ?thesis by blast
    qed
  qed
qed

lemma put_client_cases:
  "put_client JSON_parse URL_ok k ev st = Inl (TypeError, st)
   \<or> (\<exists>c m. (c = 400 \<or> c = 404) \<and>
         put_client JSON_parse URL_ok k ev st = Inr (respond c (ErrorBody m), st))
   \<or> (\<exists>b. JSON_parse (bodyText ev) = Some b \<and> body_shape b
         \<and> trimmed_field b (js ''name'') \<noteq> [] \<and> trimmed_field b (js ''downloadLink'') \<noteq> []
         \<and> ClientStore_has st k
         \<and> URL_ok (trimmed_field b (js ''downloadLink''))
         \<and> put_client JSON_parse URL_ok k ev st =
             Inr (respond 200 (ClientBody \<lparr>name = trimmed_field b (js ''name''),
                                           downloadLink = trimmed_field b (js ''downloadLink'')\<rparr>),
                  ClientStore_set st k
                    \<lparr>name = trimmed_field b (js ''name''),
                       downloadLink = trimmed_field b (js ''downloadLink'')\<rparr>))"
proof (cases "JSON_parse (bodyText ev)")
  case None
  then have "put_client JSON_parse URL_ok k ev st = Inr (respond 400 (ErrorBody ''Invalid request body''), st)"
    by (simp add: put_client_def)
  then show ?thesis by blast
next
  case (Some b)
  show ?thesis
  proof (cases "body_shape b")
    case True
    show ?thesis
      using put_client_shape [of JSON_parse ev b URL_ok k st] Some True
      unfolding Let_def by (simp split: if_splits) blast+
  next
    case False
    show ?thesis
    proof (cases "b = JNull")
      case True
      with Some show ?thesis by (simp add: put_client_def)
    next
      case nonnull: False
      with False have "\<not> (string_or_absent (getProperty b (js ''name''))
          \<and> string_or_absent (getProperty b (js ''downloadLink'')))"
        by (simp add: body_shape_def)
      from required_fields_other [OF this] Some nonnull
      have "put_client JSON_parse URL_ok k ev st = Inl (TypeError, st)
          \<or> put_client JSON_parse URL_ok k ev st
              = Inr (respond 400 (ErrorBody ''Name and download link are required''), st)"
        by (auto simp: put_client_def destructure_shape)
      then show ?thesis by blast
    qed
  qed
qed

lemma handler_cases:
  assumes "handler JSON_parse URL_ok ev st = (r, st')"
  shows "st' = st
   \<or> (statusCode r = 201 \<and> (\<exists>b. JSON_parse (bodyText ev) = Some b
         \<and> trimmed_field b (js ''name'') \<noteq> [] \<and> trimmed_field b (js ''downloadLink'') \<noteq> []
         \<and> \<not> ClientStore_has st (trimmed_field b (js ''name''))
         \<and> URL_ok (trimmed_field b (js ''downloadLink''))
         \<and> st' = ClientStore_set st (trimmed_field b (js ''name''))
                    \<lparr>name = trimmed_field b (js ''name''),
                       downloadLink = trimmed_field b (js ''downloadLink'')\<rparr>))
   \<or> (statusCode r = 200 \<and> (\<exists>b k. JSON_parse (bodyText ev) = Some b
         \<and> trimmed_field b (js ''name'') \<noteq> [] \<and> trimmed_field b (js ''downloadLink'') \<noteq> []
         \<and> ClientStore_has st k
         \<and> URL_ok (trimmed_field b (js ''downloadLink''))
         \<and> st' = ClientStore_set st k
                    \<lparr>name = trimmed_field b (js ''name''),
                       downloadLink = trimmed_field b (js ''downloadLink'')\<rparr>))
   \<or> (statusCode r = 204 \<and> (\<exists>k. ClientStore_has st k \<and> st' = snd (ClientStore_delete st k)))"
proof -
  let ?segs = "segments ev"
  let ?clients = "element ?segs 0 = Some (js ''clients'')"
  consider (post) "httpMethod ev = js ''POST''" ?clients
    | (put) "httpMethod ev = js ''PUT''" ?clients "truthy (element ?segs 1)"
    | (del) "httpMethod ev = js ''DELETE''" ?clients "truthy (element ?segs 1)"
    | (other) "\<not> (httpMethod ev = js ''POST'' \<and> ?clients)"
        "\<not> (httpMethod ev = js ''PUT'' \<and> ?clients \<and> truthy (element ?segs 1))"
        "\<not> (httpMethod ev = js ''DELETE'' \<and> ?clients \<and> truthy (element ?segs 1))"
    by blast
  then show ?thesis
  proof cases
    case other
    then have "snd (handler JSON_parse URL_ok ev st) = st"
      by (auto simp: handler_def route_def Let_def get_clients_def get_client_def
            split: option.splits)
    with assms show ?thesis by simp
  next
    case post
    then have "handler JSON_parse URL_ok ev st = caught (post_clients JSON_parse URL_ok ev st)"
      by (rule handler_POST)
    with assms post_clients_cases [of JSON_parse URL_ok ev st] show ?thesis
      by (auto simp: caught_def respond_def)
  next
    case put
    then obtain k where k: "element ?segs 1 = Some k" "k \<noteq> []"
      by (cases "element ?segs 1") auto
    with put have "handler JSON_parse URL_ok ev st = caught (put_client JSON_parse URL_ok k ev st)"
      by (simp add: handler_PUT)
    with assms put_client_cases [of JSON_parse URL_ok k ev st] show ?thesis
      by (auto simp: caught_def respond_def)
  next
    case del
    then obtain k where k: "element ?segs 1 = Some k" "k \<noteq> []"
      by (cases "element ?segs 1") auto
    with del assms show ?thesis
      by (auto simp: handler_DELETE split: if_splits)
  qed
qed

section \<open>Routes and their effects on the store\<close>

lemma route_cases:
  obtains (post) "httpMethod ev = js ''POST''" "element (segments ev) 0 = Some (js ''clients'')"
  | (put) k where "httpMethod ev = js ''PUT''" "element (segments ev) 0 = Some (js ''clients'')"
      "element (segments ev) 1 = Some k" "k \<noteq> []"
  | (del) k where "httpMethod ev = js ''DELETE''"
      "element (segments ev) 0 = Some (js ''clients'')"
      "element (segments ev) 1 = Some k" "k \<noteq> []"
  | (other) "\<not> (httpMethod ev = js ''POST'' \<and> element (segments ev) 0 = Some (js ''clients''))"
      "\<not> (httpMethod ev = js ''PUT'' \<and> element (segments ev) 0 = Some (js ''clients'')
          \<and> truthy (element (segments ev) 1))"
      "\<not> (httpMethod ev = js ''DELETE'' \<and> element (segments ev) 0 = Some (js ''clients'')
          \<and> truthy (element (segments ev) 1))"
proof -
  have "truthy v \<Longrightarrow> \<exists>k. v = Some k \<and> k \<noteq> []" for v
    by (cases v) auto
  then show ?thesis
    using that by blast
qed

lemma handler_other:
  assumes "\<not> (httpMethod ev = js ''POST'' \<and> element (segments ev) 0 = Some (js ''clients''))"
    and "\<not> (httpMethod ev = js ''PUT'' \<and> element (segments ev) 0 = Some (js ''clients'')
          \<and> truthy (element (segments ev) 1))"
    and "\<not> (httpMethod ev = js ''DELETE'' \<and> element (segments ev) 0 = Some (js ''clients'')
          \<and> truthy (element (segments ev) 1))"
  shows "snd (handler JSON_parse URL_ok ev st) = st"
    and "statusCode (fst (handler JSON_parse URL_ok ev st)) \<noteq> 201"
  using assms
  by (auto simp: handler_def route_def Let_def get_clients_def get_client_def respond_def
        split: option.splits)

lemma handler_created:
  assumes "handler JSON_parse URL_ok ev st = (respond 201 (ClientBody d), st')"
  shows "\<not> ClientStore_has st (name d) \<and> st' = st @ [(name d, d)]"
proof (cases ev rule: route_cases)
  case post
  then have "handler JSON_parse URL_ok ev st = caught (post_clients JSON_parse URL_ok ev st)"
    by (rule handler_POST)
  with assms post_clients_cases [of JSON_parse URL_ok ev st] show ?thesis
    by (auto simp: caught_def respond_def ClientStore_set_fresh)
next
  case (put k)
  then have "handler JSON_parse URL_ok ev st = caught (put_client JSON_parse URL_ok k ev st)"
    by (simp add: handler_PUT)
  with assms put_client_cases [of JSON_parse URL_ok k ev st] show ?thesis
    by (auto simp: caught_def respond_def)
next
  case (del k)
  with assms show ?thesis
    by (auto simp: handler_DELETE respond_def split: if_splits)
next
  case other
  from handler_other(2) [OF this, of JSON_parse URL_ok st] assms show ?thesis
    by (simp add: respond_def)
qed

lemma handler_updated:
  assumes "httpMethod ev = js ''PUT''" "element (segments ev) 1 = Some k"
    and "handler JSON_parse URL_ok ev st = (respond 200 (ClientBody d), st')"
  shows "ClientStore_has st k \<and> st' = ClientStore_set st k d"
proof -
  have "element (segments ev) 0 = Some (js ''clients'') \<and> k \<noteq> []"
  proof (rule ccontr)
    assume "\<not> (element (segments ev) 0 = Some (js ''clients'') \<and> k \<noteq> [])"
    with assms(2)
    have "\<not> (element (segments ev) 0 = Some (js ''clients'') \<and> truthy (element (segments ev) 1))"
      by auto
    from handler_PUT_unrouted [OF assms(1) this, of JSON_parse URL_ok st] assms(3)
    show False by (simp add: respond_def)
  qed
  with assms(1,2)
  have "handler JSON_parse URL_ok ev st = caught (put_client JSON_parse URL_ok k ev st)"
    by (simp add: handler_PUT)
  with assms(3) put_client_cases [of JSON_parse URL_ok k ev st] show ?thesis
    by (auto simp: caught_def respond_def)
qed

lemma getAll_ids: "map clientId (ClientStore_getAll st) = map fst st"
  by (induction st) (auto simp: ClientStore_getAll_def)

lemma getAll_member:
  "distinct (map fst st) \<Longrightarrow>
   (\<lparr>name = name d, downloadLink = downloadLink d, clientId = k\<rparr> \<in> set (ClientStore_getAll st))
     = (ClientStore_get st k = Some d)"
proof -
  assume "distinct (map fst st)"
  then have "(ClientStore_get st k = Some d) = ((k, d) \<in> set st)"
    by (simp add: ClientStore_get_def)
  moreover have "(\<lparr>name = name d, downloadLink = downloadLink d, clientId = k\<rparr>
      \<in> set (ClientStore_getAll st)) = ((k, d) \<in> set st)"
    by (induction st) (auto simp: ClientStore_getAll_def)
  ultimately show ?thesis by simp
qed

lemma matched_not_endpoint_error:
  assumes "httpMethod ev = js ''OPTIONS''
     \<or> ((httpMethod ev = js ''GET'' \<or> httpMethod ev = js ''POST'')
          \<and> element (segments ev) 0 = Some (js ''clients''))
     \<or> ((httpMethod ev = js ''PUT'' \<or> httpMethod ev = js ''DELETE'')
          \<and> element (segments ev) 0 = Some (js ''clients'') \<and> truthy (element (segments ev) 1))"
  shows "body (fst (handler JSON_parse URL_ok ev st)) \<noteq> Some (ErrorBody ''Endpoint not found'')"
proof (cases ev rule: route_cases)
  case post
  then have "handler JSON_parse URL_ok ev st = caught (post_clients JSON_parse URL_ok ev st)"
    by (rule handler_POST)
  then show ?thesis
    by (auto simp: caught_def post_clients_def respond_def
          split: option.splits sum.splits prod.splits if_splits)
next
  case (put k)
  then have "handler JSON_parse URL_ok ev st = caught (put_client JSON_parse URL_ok k ev st)"
    by (simp add: handler_PUT)
  then show ?thesis
    by (auto simp: caught_def put_client_def respond_def
          split: option.splits sum.splits prod.splits if_splits)
next
  case (del k)
  then show ?thesis
    by (simp add: handler_DELETE respond_def)
next
  case other
  with assms consider "httpMethod ev = js ''OPTIONS''"
    | "httpMethod ev = js ''GET''" "element (segments ev) 0 = Some (js ''clients'')"
    by blast
  then show ?thesis
  proof cases
    case 1
    then show ?thesis by (simp add: handler_def)
  next
    case 2
    then show ?thesis
      by (cases "truthy (element (segments ev) 1)"; cases "element (segments ev) 1")
         (auto simp: handler_GET_all handler_GET_one respond_def split: option.splits)
  qed
qed

lemma handler_POST_unrouted:
  "httpMethod ev = js ''POST'' \<Longrightarrow> element (segments ev) 0 \<noteq> Some (js ''clients'') \<Longrightarrow>
   handler JSON_parse URL_ok ev st = (respond 404 (ErrorBody ''Endpoint not found''), st)"
  by (auto simp: handler_def route_def js_def)

lemma bodyText_empty:
  "eventBody ev = None \<or> eventBody ev = Some [] \<Longrightarrow> bodyText ev = js ''{}''"
  by (auto simp: bodyText_def)

section \<open>The invariant of the stored entries\<close>

lemma trimmed_field_well_trimmed: "well_trimmed (trimmed_field b k)"
proof (cases "\<exists>s. getProperty b k = Some (JString s)")
  case True
  then show ?thesis
    by (auto simp: trimmed_field_def String_trim_well_trimmed)
next
  case False
  then have "trimmed_field b k = []"
    by (auto simp: trimmed_field_def split: option.splits json.splits)
  then show ?thesis
    by (simp add: well_trimmed_def)
qed

lemma store_ok_set:
  "store_ok URL_ok st \<Longrightarrow> entry_ok URL_ok (k, d) \<Longrightarrow> store_ok URL_ok (ClientStore_set st k d)"
  by (induction st) (auto simp: store_ok_def ClientStore_set_def)

lemma store_ok_delete:
  "store_ok URL_ok st \<Longrightarrow> store_ok URL_ok (snd (ClientStore_delete st k))"
  by (induction st) (auto simp: store_ok_def ClientStore_delete_def)

lemma store_ok_key:
  "store_ok URL_ok st \<Longrightarrow> ClientStore_has st k \<Longrightarrow> k \<noteq> [] \<and> well_trimmed k"
  by (induction st) (auto simp: store_ok_def ClientStore_has_def entry_ok_def)

lemma handler_store_ok:
  assumes "store_ok URL_ok st"
  shows "store_ok URL_ok (snd (handler JSON_parse URL_ok ev st))"
proof -
  obtain r st' where run: "handler JSON_parse URL_ok ev st = (r, st')"
    by (cases "handler JSON_parse URL_ok ev st")
  from handler_cases [OF run] consider (same) "st' = st"
    | (created) b where "JSON_parse (bodyText ev) = Some b"
        "trimmed_field b (js ''name'') \<noteq> []"
        "URL_ok (trimmed_field b (js ''downloadLink''))"
        "st' = ClientStore_set st (trimmed_field b (js ''name''))
                 \<lparr>name = trimmed_field b (js ''name''),
                    downloadLink = trimmed_field b (js ''downloadLink'')\<rparr>"
    | (updated) b k where "JSON_parse (bodyText ev) = Some b" "ClientStore_has st k"
        "URL_ok (trimmed_field b (js ''downloadLink''))"
        "st' = ClientStore_set st k
                 \<lparr>name = trimmed_field b (js ''name''),
                    downloadLink = trimmed_field b (js ''downloadLink'')\<rparr>"
    | (deleted) k where "st' = snd (ClientStore_delete st k)"
    by blast
  then have "store_ok URL_ok st'"
  proof cases
    case same
    with assms show ?thesis by simp
  next
    case created
    with assms show ?thesis
      by (simp add: store_ok_set entry_ok_def trimmed_field_well_trimmed)
  next
    case updated
    with assms store_ok_key [OF assms updated(2)] show ?thesis
      by (simp add: store_ok_set entry_ok_def trimmed_field_well_trimmed)
  next
    case deleted
    with assms show ?thesis
      by (simp add: store_ok_delete)
  qed
  with run show ?thesis by simp
qed

lemma handle_all_store_ok:
  "store_ok URL_ok st \<Longrightarrow> store_ok URL_ok (handle_all JSON_parse URL_ok evs st)"
  by (induction evs arbitrary: st) (simp_all add: handler_store_ok)

text \<open>
  A DELETE whose second segment is a key of the store: the entry goes, and a GET or a second
  DELETE of the same path finds nothing.
\<close>

lemma delete_segment_then_not_found:
  assumes "httpMethod ev = js ''DELETE''" "element (segments ev) 0 = Some (js ''clients'')"
    and "element (segments ev) 1 = Some k" "k \<noteq> []"
    and "ClientStore_has st k"
    and "handler JSON_parse URL_ok ev st = (r, st')"
  shows "r = \<lparr>statusCode = 204, headers = corsHeaders, body = None\<rparr>
    \<and> \<not> ClientStore_has st' k
    \<and> (\<forall>k'. k' \<noteq> k \<longrightarrow> ClientStore_get st' k' = ClientStore_get st k')
    \<and> (\<forall>ev'. httpMethod ev' = js ''GET'' \<and> path ev' = path ev \<longrightarrow>
          handler JSON_parse URL_ok ev' st' = (respond 404 (ErrorBody ''Client not found''), st'))
    \<and> handler JSON_parse URL_ok ev st' = (respond 404 (ErrorBody ''Client not found''), st')"
proof -
  from assms have r: "r = \<lparr>statusCode = 204, headers = corsHeaders, body = None\<rparr>"
    and st': "st' = snd (ClientStore_delete st k)"
    by (simp_all add: handler_DELETE)
  have gone: "ClientStore_get st' k = None"
    by (simp add: st' ClientStore_get_delete)
  then have absent: "\<not> ClientStore_has st' k"
    by (simp add: ClientStore_has_get)
  have others: "ClientStore_get st' k' = ClientStore_get st k'" if "k' \<noteq> k" for k'
    using that by (simp add: st' ClientStore_get_delete)
  have "handler JSON_parse URL_ok ev' st' = (respond 404 (ErrorBody ''Client not found''), st')"
    if "httpMethod ev' = js ''GET''" "path ev' = path ev" for ev'
  proof -
    from that(2) have "segments ev' = segments ev"
      by (rule segments_same_path)
    with that(1) assms(2-4) gone show ?thesis
      by (simp add: handler_GET_one)
  qed
  moreover have "handler JSON_parse URL_ok ev st'
      = (respond 404 (ErrorBody ''Client not found''), st')"
    using assms(1-4) absent by (simp add: handler_DELETE)
  ultimately show ?thesis
    using r absent others by simp
qed

section \<open>Creating a client\<close>

text \<open>
  A body that parses to \<open>null\<close> passes the parse check and is then neither answered by
  400 for its missing name nor stored: destructuring it throws, and the answer is 500.
\<close>

theorem create_null_body_counterexample:
  "handler JSON_parse_excerpt URL_ok_excerpt
     (request ''POST'' ''/.netlify/functions/api/clients'' (Some ''null'')) []
   = (respond 500 (ServerErrorBody ''Internal server error'' TypeError), [])"
  by (simp add: eval_defs)

text \<open>
  C1, amended. For every POST request whose first path segment is \<open>clients\<close> and whose
  body, when it parses, parses to a value other than \<open>null\<close> whose \<open>name\<close> and
  \<open>downloadLink\<close> are each absent, \<open>null\<close> or a string, the handler applies its checks in
  this order and returns the first failing one: the body does not parse, 400; the trimmed
  name or the trimmed link is empty or absent, 400; the trimmed name is a key of the
  registry, 409; the trimmed link is not a well-formed URL, 400; otherwise it stores the
  trimmed name and link under the trimmed name, as a new last entry, and returns 201 with
  the two. Every failing check leaves the registry as it was.
\<close>

theorem create_checks_in_order:
  "httpMethod ev = js ''POST'' \<Longrightarrow> element (segments ev) 0 = Some (js ''clients'') \<Longrightarrow>
   (JSON_parse (bodyText ev) = None \<longrightarrow>
      handler JSON_parse URL_ok ev st = (respond 400 (ErrorBody ''Invalid request body''), st))
   \<and> (\<forall>b. JSON_parse (bodyText ev) = Some b \<and> body_shape b \<longrightarrow>
        handler JSON_parse URL_ok ev st =
          (let n = trimmed_field b (js ''name''); l = trimmed_field b (js ''downloadLink'') in
           if n = [] \<or> l = []
           then (respond 400 (ErrorBody ''Name and download link are required''), st)
           else if ClientStore_has st n
           then (respond 409 (ErrorBody ''Client with this name already exists''), st)
           else if \<not> URL_ok l
           then (respond 400 (ErrorBody ''Invalid download link URL''), st)
           else (respond 201 (ClientBody \<lparr>name = n, downloadLink = l\<rparr>),
                 st @ [(n, \<lparr>name = n, downloadLink = l\<rparr>)])))"
proof (intro conjI impI allI)
  assume post: "httpMethod ev = js ''POST''" "element (segments ev) 0 = Some (js ''clients'')"
  {
    assume "JSON_parse (bodyText ev) = None"
    then show "handler JSON_parse URL_ok ev st
        = (respond 400 (ErrorBody ''Invalid request body''), st)"
      using post by (simp add: handler_POST post_clients_def caught_def)
  next
    fix b
    assume "JSON_parse (bodyText ev) = Some b \<and> body_shape b"
    then show "handler JSON_parse URL_ok ev st =
          (let n = trimmed_field b (js ''name''); l = trimmed_field b (js ''downloadLink'') in
           if n = [] \<or> l = []
           then (respond 400 (ErrorBody ''Name and download link are required''), st)
           else if ClientStore_has st n
           then (respond 409 (ErrorBody ''Client with this name already exists''), st)
           else if \<not> URL_ok l
           then (respond 400 (ErrorBody ''Invalid download link URL''), st)
           else (respond 201 (ClientBody \<lparr>name = n, downloadLink = l\<rparr>),
                 st @ [(n, \<lparr>name = n, downloadLink = l\<rparr>)]))"
      using post
      by (simp add: handler_POST post_clients_shape caught_def Let_def ClientStore_set_fresh)
  }
qed

theorem create_checks_in_order_witness:
  "httpMethod (request ''POST'' ''/.netlify/functions/api/clients'' (Some acme_json))
     = js ''POST''
   \<and> element (segments (request ''POST'' ''/.netlify/functions/api/clients'' (Some acme_json))) 0
     = Some (js ''clients'')
   \<and> handler JSON_parse_excerpt URL_ok_excerpt
       (request ''POST'' ''/.netlify/functions/api/clients'' (Some acme_json)) []
     = (respond 201
          (ClientBody \<lparr>name = js ''Acme'', downloadLink = js ''https://x.test/a.zip''\<rparr>),
        [(js ''Acme'', \<lparr>name = js ''Acme'', downloadLink = js ''https://x.test/a.zip''\<rparr>)])"
  using create_checks_in_order
    [of "request ''POST'' ''/.netlify/functions/api/clients'' (Some acme_json)"
        JSON_parse_excerpt URL_ok_excerpt "[]"]
  by (simp add: input_defs Let_def)

section \<open>Updating a client\<close>

text \<open>
  As for a create, a body that parses to \<open>null\<close> is answered by 500, although its name
  is absent and the key exists.
\<close>

theorem update_null_body_counterexample:
  "handler JSON_parse_excerpt URL_ok_excerpt
     (request ''PUT'' ''/.netlify/functions/api/clients/Acme'' (Some ''null''))
     [(js ''Acme'', \<lparr>name = js ''Acme'', downloadLink = js ''https://x.test/a.zip''\<rparr>)]
   = (respond 500 (ServerErrorBody ''Internal server error'' TypeError),
      [(js ''Acme'', \<lparr>name = js ''Acme'', downloadLink = js ''https://x.test/a.zip''\<rparr>)])"
  by (simp add: eval_defs)

text \<open>
  C2, amended. For every PUT request to \<open>/clients/{id}\<close> (first segment \<open>clients\<close>, a
  non-empty second segment \<open>id\<close>) whose body, when it parses, parses to a value other than
  \<open>null\<close> whose \<open>name\<close> and \<open>downloadLink\<close> are each absent, \<open>null\<close> or a string, the
  handler applies its checks in this order and returns the first failing one: the body
  does not parse, 400; the trimmed name or the trimmed link is empty or absent, 400;
  \<open>id\<close> is not a key of the registry, 404, the registry left as it was; the trimmed link
  is not a well-formed URL, 400; otherwise it overwrites the record at \<open>id\<close> with the
  trimmed name and link and returns 200 with the two.
\<close>

theorem update_checks_in_order:
  "httpMethod ev = js ''PUT'' \<Longrightarrow> element (segments ev) 0 = Some (js ''clients'') \<Longrightarrow>
   element (segments ev) 1 = Some k \<Longrightarrow> k \<noteq> [] \<Longrightarrow>
   (JSON_parse (bodyText ev) = None \<longrightarrow>
      handler JSON_parse URL_ok ev st = (respond 400 (ErrorBody ''Invalid request body''), st))
   \<and> (\<forall>b. JSON_parse (bodyText ev) = Some b \<and> body_shape b \<longrightarrow>
        handler JSON_parse URL_ok ev st =
          (let n = trimmed_field b (js ''name''); l = trimmed_field b (js ''downloadLink'') in
           if n = [] \<or> l = []
           then (respond 400 (ErrorBody ''Name and download link are required''), st)
           else if \<not> ClientStore_has st k
           then (respond 404 (ErrorBody ''Client not found''), st)
           else if \<not> URL_ok l
           then (respond 400 (ErrorBody ''Invalid download link URL''), st)
           else (respond 200 (ClientBody \<lparr>name = n, downloadLink = l\<rparr>),
                 ClientStore_set st k \<lparr>name = n, downloadLink = l\<rparr>)))"
proof (intro conjI impI allI)
  assume put: "httpMethod ev = js ''PUT''" "element (segments ev) 0 = Some (js ''clients'')"
    "element (segments ev) 1 = Some k" "k \<noteq> []"
  {
    assume "JSON_parse (bodyText ev) = None"
    then show "handler JSON_parse URL_ok ev st
        = (respond 400 (ErrorBody ''Invalid request body''), st)"
      using put by (simp add: handler_PUT put_client_def caught_def)
  next
    fix b
    assume "JSON_parse (bodyText ev) = Some b \<and> body_shape b"
    then show "handler JSON_parse URL_ok ev st =
          (let n = trimmed_field b (js ''name''); l = trimmed_field b (js ''downloadLink'') in
           if n = [] \<or> l = []
           then (respond 400 (ErrorBody ''Name and download link are required''), st)
           else if \<not> ClientStore_has st k
           then (respond 404 (ErrorBody ''Client not found''), st)
           else if \<not> URL_ok l
           then (respond 400 (ErrorBody ''Invalid download link URL''), st)
           else (respond 200 (ClientBody \<lparr>name = n, downloadLink = l\<rparr>),
                 ClientStore_set st k \<lparr>name = n, downloadLink = l\<rparr>))"
      using put
      by (simp add: handler_PUT put_client_shape caught_def Let_def)
  }
qed

theorem update_checks_in_order_witness:
  "httpMethod (request ''PUT'' ''/.netlify/functions/api/clients/Acme'' (Some acme_corp_json))
     = js ''PUT''
   \<and> segments (request ''PUT'' ''/.netlify/functions/api/clients/Acme'' (Some acme_corp_json))
     = [js ''clients'', js ''Acme'']
   \<and> handler JSON_parse_excerpt URL_ok_excerpt
       (request ''PUT'' ''/.netlify/functions/api/clients/Acme'' (Some acme_corp_json))
       [(js ''Acme'', \<lparr>name = js ''Acme'', downloadLink = js ''https://x.test/a.zip''\<rparr>)]
     = (respond 200
          (ClientBody \<lparr>name = js ''Acme Corp'', downloadLink = js ''https://x.test/b.zip''\<rparr>),
        [(js ''Acme'',
          \<lparr>name = js ''Acme Corp'', downloadLink = js ''https://x.test/b.zip''\<rparr>)])
   \<and> handler JSON_parse_excerpt URL_ok_excerpt
       (request ''PUT'' ''/.netlify/functions/api/clients/Acme'' (Some acme_corp_json)) []
     = (respond 404 (ErrorBody ''Client not found''), [])"
  using update_checks_in_order
    [of "request ''PUT'' ''/.netlify/functions/api/clients/Acme'' (Some acme_corp_json)"
        "js ''Acme''" JSON_parse_excerpt URL_ok_excerpt
        "[(js ''Acme'', \<lparr>name = js ''Acme'', downloadLink = js ''https://x.test/a.zip''\<rparr>)]"]
    update_checks_in_order
    [of "request ''PUT'' ''/.netlify/functions/api/clients/Acme'' (Some acme_corp_json)"
        "js ''Acme''" JSON_parse_excerpt URL_ok_excerpt "[]"]
  by (simp add: input_defs Let_def)

text \<open>
  C3. A successful update (a PUT answered by 200) leaves the keys of the registry, and
  their order, as they were and changes only the record under the key \<open>k\<close> it names: the
  record is still under \<open>k\<close>, with the new trimmed name and link, so that a GET of the
  same path returns 200 with them; the new name is a key afterwards only if it was one
  before; every other key has the record it had.
\<close>

theorem update_keeps_keys:
  assumes "httpMethod ev = js ''PUT''" "element (segments ev) 1 = Some k"
    and "JSON_parse (bodyText ev) = Some b"
    and "handler JSON_parse URL_ok ev st = (r, st')" "statusCode r = 200"
  shows "r = respond 200 (ClientBody \<lparr>name = trimmed_field b (js ''name''),
                                        downloadLink = trimmed_field b (js ''downloadLink'')\<rparr>)
    \<and> map fst st' = map fst st
    \<and> ClientStore_has st' (trimmed_field b (js ''name''))
        = ClientStore_has st (trimmed_field b (js ''name''))
    \<and> ClientStore_get st' k = Some \<lparr>name = trimmed_field b (js ''name''),
                                      downloadLink = trimmed_field b (js ''downloadLink'')\<rparr>
    \<and> (\<forall>k'. k' \<noteq> k \<longrightarrow> ClientStore_get st' k' = ClientStore_get st k')
    \<and> (\<forall>ev'. httpMethod ev' = js ''GET'' \<and> path ev' = path ev \<longrightarrow>
          handler JSON_parse URL_ok ev' st'
            = (respond 200 (ClientBody \<lparr>name = trimmed_field b (js ''name''),
                                          downloadLink = trimmed_field b (js ''downloadLink'')\<rparr>),
               st'))"
proof -
  let ?d = "\<lparr>name = trimmed_field b (js ''name''),
             downloadLink = trimmed_field b (js ''downloadLink'')\<rparr>"
  have "element (segments ev) 0 = Some (js ''clients'') \<and> k \<noteq> []"
  proof (rule ccontr)
    assume "\<not> (element (segments ev) 0 = Some (js ''clients'') \<and> k \<noteq> [])"
    with assms(2)
    have "\<not> (element (segments ev) 0 = Some (js ''clients'') \<and> truthy (element (segments ev) 1))"
      by auto
    from handler_PUT_unrouted [OF assms(1) this, of JSON_parse URL_ok st] assms(4,5)
    show False by (simp add: respond_def)
  qed
  then have routed: "element (segments ev) 0 = Some (js ''clients'')" "k \<noteq> []"
    by simp_all
  then have "handler JSON_parse URL_ok ev st = caught (put_client JSON_parse URL_ok k ev st)"
    using assms by (simp add: handler_PUT)
  with assms put_client_cases [of JSON_parse URL_ok k ev st]
  have r: "r = respond 200 (ClientBody ?d)" and st': "st' = ClientStore_set st k ?d"
    and has: "ClientStore_has st k"
    by (auto simp: caught_def respond_def)
  from has st' have keys: "map fst st' = map fst st"
    by (simp add: ClientStore_set_keys)
  have get: "ClientStore_get st' k = Some ?d"
    by (simp add: st' ClientStore_get_set)
  have "handler JSON_parse URL_ok ev' st' = (respond 200 (ClientBody ?d), st')"
    if "httpMethod ev' = js ''GET''" "path ev' = path ev" for ev'
  proof -
    from that(2) have "segments ev' = segments ev"
      by (rule segments_same_path)
    with that(1) routed assms(2) get show ?thesis
      by (simp add: handler_GET_one)
  qed
  with r keys get show ?thesis
    by (simp add: st' ClientStore_get_set ClientStore_has_def)
qed

theorem update_keeps_keys_witness:
  "handler JSON_parse_excerpt URL_ok_excerpt
       (request ''PUT'' ''/.netlify/functions/api/clients/Acme'' (Some acme_corp_json))
       [(js ''Acme'', \<lparr>name = js ''Acme'', downloadLink = js ''https://x.test/a.zip''\<rparr>),
        (js ''Bolt'', \<lparr>name = js ''Bolt'', downloadLink = js ''https://x.test/b.zip''\<rparr>)]
     = (respond 200
          (ClientBody \<lparr>name = js ''Acme Corp'', downloadLink = js ''https://x.test/b.zip''\<rparr>),
        [(js ''Acme'', \<lparr>name = js ''Acme Corp'', downloadLink = js ''https://x.test/b.zip''\<rparr>),
         (js ''Bolt'', \<lparr>name = js ''Bolt'', downloadLink = js ''https://x.test/b.zip''\<rparr>)])
   \<and> handler JSON_parse_excerpt URL_ok_excerpt
       (request ''GET'' ''/.netlify/functions/api/clients/Acme'' None)
       [(js ''Acme'', \<lparr>name = js ''Acme Corp'', downloadLink = js ''https://x.test/b.zip''\<rparr>),
        (js ''Bolt'', \<lparr>name = js ''Bolt'', downloadLink = js ''https://x.test/b.zip''\<rparr>)]
     = (respond 200
          (ClientBody \<lparr>name = js ''Acme Corp'', downloadLink = js ''https://x.test/b.zip''\<rparr>),
        [(js ''Acme'', \<lparr>name = js ''Acme Corp'', downloadLink = js ''https://x.test/b.zip''\<rparr>),
         (js ''Bolt'', \<lparr>name = js ''Bolt'', downloadLink = js ''https://x.test/b.zip''\<rparr>)])"
proof -
  let ?ev = "request ''PUT'' ''/.netlify/functions/api/clients/Acme'' (Some acme_corp_json)"
  let ?st = "[(js ''Acme'', \<lparr>name = js ''Acme'', downloadLink = js ''https://x.test/a.zip''\<rparr>),
        (js ''Bolt'', \<lparr>name = js ''Bolt'', downloadLink = js ''https://x.test/b.zip''\<rparr>)]"
  let ?st' = "[(js ''Acme'', \<lparr>name = js ''Acme Corp'', downloadLink = js ''https://x.test/b.zip''\<rparr>),
         (js ''Bolt'', \<lparr>name = js ''Bolt'', downloadLink = js ''https://x.test/b.zip''\<rparr>)]"
  let ?r = "respond 200
          (ClientBody \<lparr>name = js ''Acme Corp'', downloadLink = js ''https://x.test/b.zip''\<rparr>)"
  have run: "handler JSON_parse_excerpt URL_ok_excerpt ?ev ?st = (?r, ?st')"
    by (simp add: eval_defs)
  have "httpMethod ?ev = js ''PUT''" "element (segments ?ev) 1 = Some (js ''Acme'')"
    "JSON_parse_excerpt (bodyText ?ev)
       = Some (JObject [(js ''name'', JString (js ''Acme Corp'')),
                        (js ''downloadLink'', JString (js ''https://x.test/b.zip''))])"
    "statusCode ?r = 200"
    by (simp_all add: input_defs)
  from update_keeps_keys [OF this(1,2,3) run this(4)] run show ?thesis
    by (simp add: input_defs)
qed

section \<open>Creating and reading back\<close>

text \<open>
  A name with a slash is stored under the whole name, and the GET of \<open>/clients/a/b\<close> looks
  up the second segment \<open>a\<close> alone: the record just created is not found.
\<close>

theorem create_then_get_slash_counterexample:
  "handler JSON_parse_excerpt URL_ok_excerpt
     (request ''POST'' ''/.netlify/functions/api/clients'' (Some slash_json)) []
   = (respond 201
        (ClientBody \<lparr>name = js ''a/b'', downloadLink = js ''https://x.test/a.zip''\<rparr>),
      [(js ''a/b'', \<lparr>name = js ''a/b'', downloadLink = js ''https://x.test/a.zip''\<rparr>)])
   \<and> handler JSON_parse_excerpt URL_ok_excerpt
       (request ''GET'' ''/.netlify/functions/api/clients/a/b'' None)
       [(js ''a/b'', \<lparr>name = js ''a/b'', downloadLink = js ''https://x.test/a.zip''\<rparr>)]
     = (respond 404 (ErrorBody ''Client not found''),
        [(js ''a/b'', \<lparr>name = js ''a/b'', downloadLink = js ''https://x.test/a.zip''\<rparr>)])"
  by (simp add: eval_defs)

text \<open>
  C4, amended. For every name and link in the body, both strings with non-empty trimmed
  forms, where the trimmed name is not yet a key of the registry, holds no slash, and the
  trimmed link is a well-formed URL: the POST to \<open>/clients\<close> returns 201, and a GET of
  \<open>/clients/{trimmed name}\<close> after it returns 200 with exactly the trimmed name and the
  trimmed link.
\<close>

theorem create_then_get:
  assumes "httpMethod ev = js ''POST''" "element (segments ev) 0 = Some (js ''clients'')"
    and "JSON_parse (bodyText ev) = Some b"
    and "getProperty b (js ''name'') = Some (JString nm)"
    and "getProperty b (js ''downloadLink'') = Some (JString dl)"
    and "String_trim nm \<noteq> []" "String_trim dl \<noteq> []"
    and "\<not> ClientStore_has st (String_trim nm)" "URL_ok (String_trim dl)"
    and "slash \<notin> set (String_trim nm)"
    and "httpMethod ev' = js ''GET''"
    and "path ev' = api_prefix @ js ''clients/'' @ String_trim nm"
  shows "fst (handler JSON_parse URL_ok ev st)
      = respond 201 (ClientBody \<lparr>name = String_trim nm, downloadLink = String_trim dl\<rparr>)
    \<and> fst (handler JSON_parse URL_ok ev' (snd (handler JSON_parse URL_ok ev st)))
      = respond 200 (ClientBody \<lparr>name = String_trim nm, downloadLink = String_trim dl\<rparr>)"
proof -
  let ?n = "String_trim nm" and ?l = "String_trim dl"
  let ?d = "\<lparr>name = ?n, downloadLink = ?l\<rparr>"
  from body_shape_strings [OF assms(4,5)]
  have shape: "body_shape b" and fields: "trimmed_field b (js ''name'') = ?n"
      "trimmed_field b (js ''downloadLink'') = ?l"
    by simp_all
  have created: "handler JSON_parse URL_ok ev st
      = (respond 201 (ClientBody ?d), ClientStore_set st ?n ?d)"
    using assms(1-3,6-9) shape post_clients_shape [of JSON_parse ev b URL_ok st]
    by (simp add: handler_POST caught_def fields Let_def)
  have "segments ev' = [js ''clients'', ?n]"
    using segments_client_path [OF assms(12)] assms(10)
    by (simp add: String_split_nosep)
  then have "handler JSON_parse URL_ok ev' (ClientStore_set st ?n ?d)
      = (respond 200 (ClientBody ?d), ClientStore_set st ?n ?d)"
    using assms(6,11) by (simp add: handler_GET_one ClientStore_get_set)
  with created show ?thesis by simp
qed

theorem create_then_get_witness:
  "fst (handler JSON_parse_excerpt URL_ok_excerpt
         (request ''POST'' ''/.netlify/functions/api/clients'' (Some bolt_json)) [])
     = respond 201
         (ClientBody \<lparr>name = js ''Bolt'', downloadLink = js ''https://x.test/b.zip''\<rparr>)
   \<and> fst (handler JSON_parse_excerpt URL_ok_excerpt
         (request ''GET'' ''/.netlify/functions/api/clients/Bolt'' None)
         (snd (handler JSON_parse_excerpt URL_ok_excerpt
                (request ''POST'' ''/.netlify/functions/api/clients'' (Some bolt_json)) [])))
     = respond 200
         (ClientBody \<lparr>name = js ''Bolt'', downloadLink = js ''https://x.test/b.zip''\<rparr>)"
  using create_then_get
    [of "request ''POST'' ''/.netlify/functions/api/clients'' (Some bolt_json)"
        JSON_parse_excerpt
        "JObject [(js ''name'', JString (js '' Bolt '')),
                  (js ''downloadLink'', JString (js '' https://x.test/b.zip ''))]"
        "js '' Bolt ''" "js '' https://x.test/b.zip ''" "[]" URL_ok_excerpt
        "request ''GET'' ''/.netlify/functions/api/clients/Bolt'' None"]
  by (simp add: input_defs)

section \<open>Failed requests\<close>

text \<open>
  An ill-formed link under a name that is taken is answered by 409, not by 400: the name
  is checked before the link.
\<close>

theorem create_bad_link_taken_name_counterexample:
  "handler JSON_parse_excerpt URL_ok_excerpt
     (request ''POST'' ''/.netlify/functions/api/clients'' (Some acme_bad_link_json))
     [(js ''Acme'', \<lparr>name = js ''Acme'', downloadLink = js ''https://x.test/a.zip''\<rparr>)]
   = (respond 409 (ErrorBody ''Client with this name already exists''),
      [(js ''Acme'', \<lparr>name = js ''Acme'', downloadLink = js ''https://x.test/a.zip''\<rparr>)])"
  by (simp add: eval_defs)

text \<open>
  C5, amended. A request answered by a status of 400 or more leaves the registry as it
  was. In particular a POST to \<open>/clients\<close> whose trimmed name is non-empty and not yet a
  key, and whose trimmed link is not a well-formed URL, returns 400 and stores no record:
  the registry after the request is the registry before it.
\<close>

theorem failed_request_keeps_store:
  "(400 \<le> statusCode (fst (handler JSON_parse URL_ok ev st)) \<longrightarrow>
      snd (handler JSON_parse URL_ok ev st) = st)
   \<and> (httpMethod ev = js ''POST'' \<and> element (segments ev) 0 = Some (js ''clients'')
        \<and> JSON_parse (bodyText ev) = Some b
        \<and> getProperty b (js ''name'') = Some (JString nm)
        \<and> getProperty b (js ''downloadLink'') = Some (JString dl)
        \<and> String_trim nm \<noteq> [] \<and> \<not> ClientStore_has st (String_trim nm)
        \<and> \<not> URL_ok (String_trim dl) \<longrightarrow>
      statusCode (fst (handler JSON_parse URL_ok ev st)) = 400
      \<and> snd (handler JSON_parse URL_ok ev st) = st)"
proof -
  obtain r st' where run: "handler JSON_parse URL_ok ev st = (r, st')"
    by (cases "handler JSON_parse URL_ok ev st")
  have general: "snd (handler JSON_parse URL_ok ev st) = st"
    if "400 \<le> statusCode (fst (handler JSON_parse URL_ok ev st))"
    using that run handler_cases [OF run] by auto
  have particular: "statusCode (fst (handler JSON_parse URL_ok ev st)) = 400
      \<and> snd (handler JSON_parse URL_ok ev st) = st"
    if a: "httpMethod ev = js ''POST'' \<and> element (segments ev) 0 = Some (js ''clients'')
        \<and> JSON_parse (bodyText ev) = Some b
        \<and> getProperty b (js ''name'') = Some (JString nm)
        \<and> getProperty b (js ''downloadLink'') = Some (JString dl)
        \<and> String_trim nm \<noteq> [] \<and> \<not> ClientStore_has st (String_trim nm)
        \<and> \<not> URL_ok (String_trim dl)"
  proof -
    from a have "body_shape b \<and> trimmed_field b (js ''name'') = String_trim nm
       \<and> trimmed_field b (js ''downloadLink'') = String_trim dl"
      by (simp add: body_shape_strings)
    with a post_clients_shape [of JSON_parse ev b URL_ok st] show ?thesis
      by (simp add: handler_POST caught_def respond_def Let_def)
  qed
  from general particular show ?thesis
    by blast
qed

theorem failed_request_keeps_store_witness:
  "statusCode (fst (handler JSON_parse_excerpt URL_ok_excerpt
       (request ''POST'' ''/.netlify/functions/api/clients'' (Some acme_bad_link_json)) []))
     = 400
   \<and> snd (handler JSON_parse_excerpt URL_ok_excerpt
       (request ''POST'' ''/.netlify/functions/api/clients'' (Some acme_bad_link_json)) [])
     = []"
  using failed_request_keeps_store
    [of JSON_parse_excerpt URL_ok_excerpt
        "request ''POST'' ''/.netlify/functions/api/clients'' (Some acme_bad_link_json)" "[]"
        "JObject [(js ''name'', JString (js ''Acme'')),
                  (js ''downloadLink'', JString (js ''not-a-url''))]"
        "js ''Acme''" "js ''not-a-url''"]
  by (simp add: input_defs)

section \<open>Deleting a client\<close>

text \<open>
  A key with a slash is in the registry after the create of the name \<open>a/b\<close>, and the DELETE
  of \<open>/clients/a/b\<close> looks for the segment \<open>a\<close>: it answers 404 and removes nothing.
\<close>

theorem delete_slash_key_counterexample:
  "handle_all JSON_parse_excerpt URL_ok_excerpt
     [request ''POST'' ''/.netlify/functions/api/clients'' (Some slash_json)] []
   = [(js ''a/b'', \<lparr>name = js ''a/b'', downloadLink = js ''https://x.test/a.zip''\<rparr>)]
   \<and> ClientStore_has
       [(js ''a/b'', \<lparr>name = js ''a/b'', downloadLink = js ''https://x.test/a.zip''\<rparr>)]
       (js ''a/b'')
   \<and> handler JSON_parse_excerpt URL_ok_excerpt
       (request ''DELETE'' ''/.netlify/functions/api/clients/a/b'' None)
       [(js ''a/b'', \<lparr>name = js ''a/b'', downloadLink = js ''https://x.test/a.zip''\<rparr>)]
     = (respond 404 (ErrorBody ''Client not found''),
        [(js ''a/b'', \<lparr>name = js ''a/b'', downloadLink = js ''https://x.test/a.zip''\<rparr>)])"
  by (simp add: eval_defs)

text \<open>
  C6, amended. For a key present in the registry that holds no slash, the DELETE of
  \<open>/clients/{key}\<close> returns 204 with no body and removes the entry, every other key
  keeping its record; a GET of \<open>/clients/{key}\<close> after it returns 404, and so does a
  second DELETE of it, which changes nothing. (The registry is one built from the empty
  registry by requests, whose keys are all non-empty, or any store when the key is not
  empty.)
\<close>

theorem delete_then_not_found:
  assumes "ClientStore_has st k" "slash \<notin> set k"
    and "k \<noteq> [] \<or> st = handle_all JSON_parse URL_ok evs []"
    and "httpMethod ev = js ''DELETE''" "path ev = api_prefix @ js ''clients/'' @ k"
    and "handler JSON_parse URL_ok ev st = (r, st')"
  shows "r = \<lparr>statusCode = 204, headers = corsHeaders, body = None\<rparr>
    \<and> \<not> ClientStore_has st' k
    \<and> (\<forall>k'. k' \<noteq> k \<longrightarrow> ClientStore_get st' k' = ClientStore_get st k')
    \<and> (\<forall>ev'. httpMethod ev' = js ''GET'' \<and> path ev' = api_prefix @ js ''clients/'' @ k \<longrightarrow>
          handler JSON_parse URL_ok ev' st' = (respond 404 (ErrorBody ''Client not found''), st'))
    \<and> handler JSON_parse URL_ok ev st' = (respond 404 (ErrorBody ''Client not found''), st')"
proof -
  have nonempty: "k \<noteq> []"
  proof (cases "k \<noteq> []")
    case True
    then show ?thesis .
  next
    case False
    with assms(3) have "st = handle_all JSON_parse URL_ok evs []"
      by simp
    moreover have "store_ok URL_ok []"
      by (simp add: store_ok_def)
    ultimately have "store_ok URL_ok st"
      by (simp add: handle_all_store_ok)
    from store_ok_key [OF this assms(1)] show ?thesis
      by simp
  qed
  have segs: "segments ev = [js ''clients'', k]"
    using segments_client_path [OF assms(5)] assms(2)
    by (simp add: String_split_nosep)
  then have routed: "element (segments ev) 0 = Some (js ''clients'')"
      "element (segments ev) 1 = Some k"
    by simp_all
  note deleted = delete_segment_then_not_found
    [OF assms(4) routed nonempty assms(1) assms(6)]
  have "handler JSON_parse URL_ok ev' st' = (respond 404 (ErrorBody ''Client not found''), st')"
    if "httpMethod ev' = js ''GET''" "path ev' = api_prefix @ js ''clients/'' @ k" for ev'
  proof -
    from that(2) assms(5) have "path ev' = path ev"
      by simp
    with that(1) deleted show ?thesis
      by blast
  qed
  with deleted show ?thesis
    by blast
qed

theorem delete_then_not_found_witness:
  "handler JSON_parse_excerpt URL_ok_excerpt
       (request ''DELETE'' ''/.netlify/functions/api/clients/Acme'' None)
       [(js ''Acme'', \<lparr>name = js ''Acme'', downloadLink = js ''https://x.test/a.zip''\<rparr>)]
     = (\<lparr>statusCode = 204, headers = corsHeaders, body = None\<rparr>, [])
   \<and> handler JSON_parse_excerpt URL_ok_excerpt
       (request ''GET'' ''/.netlify/functions/api/clients/Acme'' None) []
     = (respond 404 (ErrorBody ''Client not found''), [])
   \<and> handler JSON_parse_excerpt URL_ok_excerpt
       (request ''DELETE'' ''/.netlify/functions/api/clients/Acme'' None) []
     = (respond 404 (ErrorBody ''Client not found''), [])"
proof -
  let ?ev = "request ''DELETE'' ''/.netlify/functions/api/clients/Acme'' None"
  let ?get = "request ''GET'' ''/.netlify/functions/api/clients/Acme'' None"
  let ?post = "request ''POST'' ''/.netlify/functions/api/clients'' (Some acme_json)"
  let ?st = "[(js ''Acme'', \<lparr>name = js ''Acme'', downloadLink = js ''https://x.test/a.zip''\<rparr>)]"
  have run: "handler JSON_parse_excerpt URL_ok_excerpt ?ev ?st
      = (\<lparr>statusCode = 204, headers = corsHeaders, body = None\<rparr>, [])"
    by (simp add: eval_defs)
  have built: "js ''Acme'' \<noteq> [] \<or> ?st = handle_all JSON_parse_excerpt URL_ok_excerpt [?post] []"
    by (simp add: js_def)
  have "ClientStore_has ?st (js ''Acme'')" "slash \<notin> set (js ''Acme'')"
    by (simp_all add: input_defs)
  moreover have "httpMethod ?ev = js ''DELETE''"
    "path ?ev = api_prefix @ js ''clients/'' @ js ''Acme''"
    "httpMethod ?get = js ''GET''" "path ?get = api_prefix @ js ''clients/'' @ js ''Acme''"
    by (simp_all add: request_def api_prefix_def js_def)
  ultimately show ?thesis
    using delete_then_not_found [of ?st "js ''Acme''" JSON_parse_excerpt URL_ok_excerpt
        "[?post]" ?ev _ "[]"] built run
    by simp
qed

section \<open>Requests that match no route\<close>

text \<open>
  A POST to \<open>/clients/abc\<close> is a create, and a GET of \<open>/clients/Acme/extra\<close> reads the
  client \<open>Acme\<close>: the guard of POST tests the first segment only, and no guard looks past
  the second.
\<close>

theorem routes_ignore_further_segments_counterexample:
  "handler JSON_parse_excerpt URL_ok_excerpt
     (request ''POST'' ''/.netlify/functions/api/clients/abc'' (Some acme_json)) []
   = (respond 201
        (ClientBody \<lparr>name = js ''Acme'', downloadLink = js ''https://x.test/a.zip''\<rparr>),
      [(js ''Acme'', \<lparr>name = js ''Acme'', downloadLink = js ''https://x.test/a.zip''\<rparr>)])
   \<and> handler JSON_parse_excerpt URL_ok_excerpt
       (request ''GET'' ''/.netlify/functions/api/clients/Acme/extra'' None)
       [(js ''Acme'', \<lparr>name = js ''Acme'', downloadLink = js ''https://x.test/a.zip''\<rparr>)]
     = (respond 200
          (ClientBody \<lparr>name = js ''Acme'', downloadLink = js ''https://x.test/a.zip''\<rparr>),
        [(js ''Acme'', \<lparr>name = js ''Acme'', downloadLink = js ''https://x.test/a.zip''\<rparr>)])"
  by (simp add: eval_defs)

text \<open>
  C7, amended. A request is answered by 404 with the error \<open>Endpoint not found\<close>, the
  registry left as it was, exactly when its method is not OPTIONS and it passes none of
  the handler's guards: GET or POST with first segment \<open>clients\<close>, PUT or DELETE with first
  segment \<open>clients\<close> and a non-empty second segment. The guards test nothing else: a POST
  with a second segment is a create, and segments after the second are ignored.
\<close>

theorem endpoint_not_found:
  "(handler JSON_parse URL_ok ev st = (respond 404 (ErrorBody ''Endpoint not found''), st))
   = (httpMethod ev \<noteq> js ''OPTIONS''
      \<and> \<not> ((httpMethod ev = js ''GET'' \<or> httpMethod ev = js ''POST'')
            \<and> element (segments ev) 0 = Some (js ''clients''))
      \<and> \<not> ((httpMethod ev = js ''PUT'' \<or> httpMethod ev = js ''DELETE'')
            \<and> element (segments ev) 0 = Some (js ''clients'')
            \<and> truthy (element (segments ev) 1)))"
proof
  assume "handler JSON_parse URL_ok ev st = (respond 404 (ErrorBody ''Endpoint not found''), st)"
  then have "body (fst (handler JSON_parse URL_ok ev st))
      = Some (ErrorBody ''Endpoint not found'')"
    by (simp add: respond_def)
  with matched_not_endpoint_error [of ev JSON_parse URL_ok st]
  show "httpMethod ev \<noteq> js ''OPTIONS''
      \<and> \<not> ((httpMethod ev = js ''GET'' \<or> httpMethod ev = js ''POST'')
            \<and> element (segments ev) 0 = Some (js ''clients''))
      \<and> \<not> ((httpMethod ev = js ''PUT'' \<or> httpMethod ev = js ''DELETE'')
            \<and> element (segments ev) 0 = Some (js ''clients'')
            \<and> truthy (element (segments ev) 1))"
    by blast
next
  assume "httpMethod ev \<noteq> js ''OPTIONS''
      \<and> \<not> ((httpMethod ev = js ''GET'' \<or> httpMethod ev = js ''POST'')
            \<and> element (segments ev) 0 = Some (js ''clients''))
      \<and> \<not> ((httpMethod ev = js ''PUT'' \<or> httpMethod ev = js ''DELETE'')
            \<and> element (segments ev) 0 = Some (js ''clients'')
            \<and> truthy (element (segments ev) 1))"
  then show "handler JSON_parse URL_ok ev st
      = (respond 404 (ErrorBody ''Endpoint not found''), st)"
    by (auto simp: handler_def route_def Let_def)
qed

theorem endpoint_not_found_witness:
  "handler JSON_parse_excerpt URL_ok_excerpt
     (request ''PUT'' ''/.netlify/functions/api/clients'' (Some acme_json)) []
   = (respond 404 (ErrorBody ''Endpoint not found''), [])
   \<and> handler JSON_parse_excerpt URL_ok_excerpt
     (request ''POST'' ''/.netlify/functions/api/customers'' (Some acme_json)) []
   = (respond 404 (ErrorBody ''Endpoint not found''), [])
   \<and> handler JSON_parse_excerpt URL_ok_excerpt
     (request ''PATCH'' ''/.netlify/functions/api/clients/Acme'' (Some acme_json)) []
   = (respond 404 (ErrorBody ''Endpoint not found''), [])"
  using endpoint_not_found
    [of JSON_parse_excerpt URL_ok_excerpt
        "request ''PUT'' ''/.netlify/functions/api/clients'' (Some acme_json)" "[]"]
    endpoint_not_found
    [of JSON_parse_excerpt URL_ok_excerpt
        "request ''POST'' ''/.netlify/functions/api/customers'' (Some acme_json)" "[]"]
    endpoint_not_found
    [of JSON_parse_excerpt URL_ok_excerpt
        "request ''PATCH'' ''/.netlify/functions/api/clients/Acme'' (Some acme_json)" "[]"]
  by (simp add: input_defs)

section \<open>Listing the clients\<close>

text \<open>
  C8. A GET of \<open>/clients\<close> returns 200 with the list of the stored records, each with its
  key as \<open>id\<close>, in the order of the store; with one entry per key, as a \<open>Map\<close> has, every
  stored record is listed exactly once. After two creates answered by 201 on the empty
  registry, A then B, the list is A then B; after an update of A answered by 200 it is the
  updated A, still under its key and in its place, then B.
\<close>

theorem list_clients_in_insertion_order:
  assumes "httpMethod ev = js ''GET''" "element (segments ev) 0 = Some (js ''clients'')"
    and "\<not> truthy (element (segments ev) 1)"
  shows "handler JSON_parse URL_ok ev st = (respond 200 (ClientsBody (ClientStore_getAll st)), st)
    \<and> map clientId (ClientStore_getAll st) = map fst st
    \<and> (distinct (map fst st) \<longrightarrow>
          distinct (ClientStore_getAll st)
          \<and> (\<forall>k d. (\<lparr>name = name d, downloadLink = downloadLink d, clientId = k\<rparr>
                      \<in> set (ClientStore_getAll st))
                    = (ClientStore_get st k = Some d)))
    \<and> (\<forall>evA evB dA dB s1 s2.
          handler JSON_parse URL_ok evA [] = (respond 201 (ClientBody dA), s1)
          \<and> handler JSON_parse URL_ok evB s1 = (respond 201 (ClientBody dB), s2) \<longrightarrow>
          handler JSON_parse URL_ok ev s2
            = (respond 200 (ClientsBody
                 [\<lparr>name = name dA, downloadLink = downloadLink dA, clientId = name dA\<rparr>,
                  \<lparr>name = name dB, downloadLink = downloadLink dB, clientId = name dB\<rparr>]), s2)
          \<and> (\<forall>evU dU s3.
                httpMethod evU = js ''PUT'' \<and> element (segments evU) 1 = Some (name dA)
                \<and> handler JSON_parse URL_ok evU s2 = (respond 200 (ClientBody dU), s3) \<longrightarrow>
                handler JSON_parse URL_ok ev s3
                  = (respond 200 (ClientsBody
                       [\<lparr>name = name dU, downloadLink = downloadLink dU, clientId = name dA\<rparr>,
                        \<lparr>name = name dB, downloadLink = downloadLink dB, clientId = name dB\<rparr>]),
                     s3)))"
proof -
  have list: "handler JSON_parse URL_ok ev s = (respond 200 (ClientsBody (ClientStore_getAll s)), s)"
    for s
    using assms by (rule handler_GET_all)
  have once: "distinct (ClientStore_getAll st)" if "distinct (map fst st)"
  proof -
    from that have "distinct (map clientId (ClientStore_getAll st))"
      by (simp add: getAll_ids)
    then show ?thesis
      by (simp add: distinct_map)
  qed
  have scenario: "handler JSON_parse URL_ok ev s2
            = (respond 200 (ClientsBody
                 [\<lparr>name = name dA, downloadLink = downloadLink dA, clientId = name dA\<rparr>,
                  \<lparr>name = name dB, downloadLink = downloadLink dB, clientId = name dB\<rparr>]), s2)
          \<and> (\<forall>evU dU s3.
                httpMethod evU = js ''PUT'' \<and> element (segments evU) 1 = Some (name dA)
                \<and> handler JSON_parse URL_ok evU s2 = (respond 200 (ClientBody dU), s3) \<longrightarrow>
                handler JSON_parse URL_ok ev s3
                  = (respond 200 (ClientsBody
                       [\<lparr>name = name dU, downloadLink = downloadLink dU, clientId = name dA\<rparr>,
                        \<lparr>name = name dB, downloadLink = downloadLink dB, clientId = name dB\<rparr>]),
                     s3))"
    if a: "handler JSON_parse URL_ok evA [] = (respond 201 (ClientBody dA), s1)"
      and b: "handler JSON_parse URL_ok evB s1 = (respond 201 (ClientBody dB), s2)"
    for evA evB dA dB s1 s2
  proof -
    from handler_created [OF a] have s1: "s1 = [(name dA, dA)]"
      by simp
    from handler_created [OF b] have s2: "s2 = [(name dA, dA), (name dB, dB)]"
      and fresh: "name dB \<noteq> name dA"
      by (auto simp: s1 ClientStore_has_def)
    have updated: "s3 = [(name dA, dU), (name dB, dB)]"
      if "httpMethod evU = js ''PUT''" "element (segments evU) 1 = Some (name dA)"
        "handler JSON_parse URL_ok evU s2 = (respond 200 (ClientBody dU), s3)"
      for evU dU s3
      using handler_updated [OF that] by (simp add: s2 ClientStore_set_def)
    show ?thesis
    proof (intro conjI allI impI)
      show "handler JSON_parse URL_ok ev s2
            = (respond 200 (ClientsBody
                 [\<lparr>name = name dA, downloadLink = downloadLink dA, clientId = name dA\<rparr>,
                  \<lparr>name = name dB, downloadLink = downloadLink dB, clientId = name dB\<rparr>]), s2)"
        by (simp add: list s2 ClientStore_getAll_def)
    next
      fix evU dU s3
      assume "httpMethod evU = js ''PUT'' \<and> element (segments evU) 1 = Some (name dA)
                \<and> handler JSON_parse URL_ok evU s2 = (respond 200 (ClientBody dU), s3)"
      then have "s3 = [(name dA, dU), (name dB, dB)]"
        using updated by blast
      then show "handler JSON_parse URL_ok ev s3
                  = (respond 200 (ClientsBody
                       [\<lparr>name = name dU, downloadLink = downloadLink dU, clientId = name dA\<rparr>,
                        \<lparr>name = name dB, downloadLink = downloadLink dB, clientId = name dB\<rparr>]),
                     s3)"
        by (simp add: list ClientStore_getAll_def)
    qed
  qed
  show ?thesis
    apply (intro conjI)
       apply (rule list)
      apply (rule getAll_ids)
     apply (use once in \<open>simp add: getAll_member\<close>)
    apply (use scenario in blast)
    done
qed

theorem list_clients_in_insertion_order_witness:
  "httpMethod (request ''GET'' ''/.netlify/functions/api/clients'' None) = js ''GET''
   \<and> segments (request ''GET'' ''/.netlify/functions/api/clients'' None) = [js ''clients'']
   \<and> handle_all JSON_parse_excerpt URL_ok_excerpt
        [request ''POST'' ''/.netlify/functions/api/clients'' (Some acme_json),
         request ''POST'' ''/.netlify/functions/api/clients'' (Some bolt_json),
         request ''PUT'' ''/.netlify/functions/api/clients/Acme'' (Some acme_corp_json)] []
      = [(js ''Acme'', \<lparr>name = js ''Acme Corp'', downloadLink = js ''https://x.test/b.zip''\<rparr>),
         (js ''Bolt'', \<lparr>name = js ''Bolt'', downloadLink = js ''https://x.test/b.zip''\<rparr>)]
   \<and> fst (handler JSON_parse_excerpt URL_ok_excerpt
        (request ''GET'' ''/.netlify/functions/api/clients'' None)
        [(js ''Acme'', \<lparr>name = js ''Acme Corp'', downloadLink = js ''https://x.test/b.zip''\<rparr>),
         (js ''Bolt'', \<lparr>name = js ''Bolt'', downloadLink = js ''https://x.test/b.zip''\<rparr>)])
      = respond 200 (ClientsBody
          [\<lparr>name = js ''Acme Corp'', downloadLink = js ''https://x.test/b.zip'',
             clientId = js ''Acme''\<rparr>,
           \<lparr>name = js ''Bolt'', downloadLink = js ''https://x.test/b.zip'',
             clientId = js ''Bolt''\<rparr>])"
proof -
  let ?ev = "request ''GET'' ''/.netlify/functions/api/clients'' None"
  have "httpMethod ?ev = js ''GET''" "element (segments ?ev) 0 = Some (js ''clients'')"
    "\<not> truthy (element (segments ?ev) 1)"
    by (simp_all add: input_defs)
  from list_clients_in_insertion_order [OF this, of JSON_parse_excerpt URL_ok_excerpt
      "[(js ''Acme'', \<lparr>name = js ''Acme Corp'', downloadLink = js ''https://x.test/b.zip''\<rparr>),
        (js ''Bolt'', \<lparr>name = js ''Bolt'', downloadLink = js ''https://x.test/b.zip''\<rparr>)]"]
  have "fst (handler JSON_parse_excerpt URL_ok_excerpt ?ev
        [(js ''Acme'', \<lparr>name = js ''Acme Corp'', downloadLink = js ''https://x.test/b.zip''\<rparr>),
         (js ''Bolt'', \<lparr>name = js ''Bolt'', downloadLink = js ''https://x.test/b.zip''\<rparr>)])
      = respond 200 (ClientsBody
          [\<lparr>name = js ''Acme Corp'', downloadLink = js ''https://x.test/b.zip'',
             clientId = js ''Acme''\<rparr>,
           \<lparr>name = js ''Bolt'', downloadLink = js ''https://x.test/b.zip'',
             clientId = js ''Bolt''\<rparr>])"
    by (simp add: ClientStore_getAll_def)
  then show ?thesis
    by (simp add: eval_defs)
qed

section \<open>An absent body\<close>

text \<open>
  C9. Given that \<open>JSON.parse\<close> reads \<open>{}\<close> as the empty object: a POST or PUT with an
  absent or empty body is never answered by the error \<open>Invalid request body\<close>; the body is
  read as \<open>{}\<close>, and the POST to \<open>/clients\<close> and the PUT to \<open>/clients/{id}\<close> are answered
  by 400 with the error of the missing fields.
\<close>

theorem empty_body_is_empty_object:
  assumes "JSON_parse (js ''{}'') = Some (JObject [])"
    and "eventBody ev = None \<or> eventBody ev = Some []"
  shows "(httpMethod ev = js ''POST'' \<and> element (segments ev) 0 = Some (js ''clients'') \<longrightarrow>
       handler JSON_parse URL_ok ev st
         = (respond 400 (ErrorBody ''Name and download link are required''), st))
    \<and> (httpMethod ev = js ''PUT'' \<and> element (segments ev) 0 = Some (js ''clients'')
          \<and> truthy (element (segments ev) 1) \<longrightarrow>
       handler JSON_parse URL_ok ev st
         = (respond 400 (ErrorBody ''Name and download link are required''), st))
    \<and> (httpMethod ev = js ''POST'' \<or> httpMethod ev = js ''PUT'' \<longrightarrow>
       body (fst (handler JSON_parse URL_ok ev st)) \<noteq> Some (ErrorBody ''Invalid request body''))"
proof -
  from assms have parsed: "JSON_parse (bodyText ev) = Some (JObject [])"
    by (simp add: bodyText_empty)
  have shape: "body_shape (JObject [])"
    by (simp add: body_shape_def)
  have post: "handler JSON_parse URL_ok ev st
         = (respond 400 (ErrorBody ''Name and download link are required''), st)"
    if "httpMethod ev = js ''POST''" "element (segments ev) 0 = Some (js ''clients'')"
    using that post_clients_shape [of JSON_parse ev "JObject []" URL_ok st, OF parsed shape]
    by (simp add: handler_POST caught_def trimmed_field_def)
  have put: "handler JSON_parse URL_ok ev st
         = (respond 400 (ErrorBody ''Name and download link are required''), st)"
    if "httpMethod ev = js ''PUT''" "element (segments ev) 0 = Some (js ''clients'')"
      "truthy (element (segments ev) 1)"
  proof -
    from that(3) obtain k where k: "element (segments ev) 1 = Some k" "k \<noteq> []"
      by (cases "element (segments ev) 1") auto
    with that put_client_shape [of JSON_parse ev "JObject []" URL_ok k st, OF parsed shape]
    show ?thesis
      by (simp add: handler_PUT caught_def trimmed_field_def)
  qed
  have never: "body (fst (handler JSON_parse URL_ok ev st))
      \<noteq> Some (ErrorBody ''Invalid request body'')"
    if verb: "httpMethod ev = js ''POST'' \<or> httpMethod ev = js ''PUT''"
  proof -
    consider (a) "httpMethod ev = js ''POST''" "element (segments ev) 0 = Some (js ''clients'')"
      | (b) "httpMethod ev = js ''POST''" "element (segments ev) 0 \<noteq> Some (js ''clients'')"
      | (c) "httpMethod ev = js ''PUT''" "element (segments ev) 0 = Some (js ''clients'')"
          "truthy (element (segments ev) 1)"
      | (d) "httpMethod ev = js ''PUT''"
          "\<not> (element (segments ev) 0 = Some (js ''clients'') \<and> truthy (element (segments ev) 1))"
      using verb by blast
    then show ?thesis
    proof cases
      case a then show ?thesis by (simp add: post respond_def)
    next
      case b then show ?thesis by (simp add: handler_POST_unrouted respond_def)
    next
      case c then show ?thesis by (simp add: put respond_def)
    next
      case d then show ?thesis by (simp add: handler_PUT_unrouted respond_def)
    qed
  qed
  from post put never show ?thesis
    by blast
qed

theorem empty_body_is_empty_object_witness:
  "JSON_parse_excerpt (js ''{}'') = Some (JObject [])
   \<and> handler JSON_parse_excerpt URL_ok_excerpt
        (request ''POST'' ''/.netlify/functions/api/clients'' None) []
      = (respond 400 (ErrorBody ''Name and download link are required''), [])
   \<and> handler JSON_parse_excerpt URL_ok_excerpt
        (request ''PUT'' ''/.netlify/functions/api/clients/Acme'' (Some ''''))
        [(js ''Acme'', \<lparr>name = js ''Acme'', downloadLink = js ''https://x.test/a.zip''\<rparr>)]
      = (respond 400 (ErrorBody ''Name and download link are required''),
         [(js ''Acme'', \<lparr>name = js ''Acme'', downloadLink = js ''https://x.test/a.zip''\<rparr>)])"
proof -
  have parse: "JSON_parse_excerpt (js ''{}'') = Some (JObject [])"
    by (simp add: JSON_parse_excerpt_def)
  have "eventBody (request ''POST'' ''/.netlify/functions/api/clients'' None) = None
      \<or> eventBody (request ''POST'' ''/.netlify/functions/api/clients'' None) = Some []"
    by (simp add: request_def)
  note post = empty_body_is_empty_object
    [of JSON_parse_excerpt "request ''POST'' ''/.netlify/functions/api/clients'' None"
        URL_ok_excerpt "[]", OF parse this]
  have "eventBody (request ''PUT'' ''/.netlify/functions/api/clients/Acme'' (Some '''')) = None
      \<or> eventBody (request ''PUT'' ''/.netlify/functions/api/clients/Acme'' (Some ''''))
          = Some []"
    by (simp add: request_def js_def)
  note put = empty_body_is_empty_object
    [of JSON_parse_excerpt "request ''PUT'' ''/.netlify/functions/api/clients/Acme'' (Some '''')"
        URL_ok_excerpt
        "[(js ''Acme'', \<lparr>name = js ''Acme'', downloadLink = js ''https://x.test/a.zip''\<rparr>)]",
     OF parse this]
  from parse post put show ?thesis
    by (simp add: segments_def api_prefix_def slash_def js_def request_def)
qed

section \<open>What the registry holds\<close>

text \<open>
  C10. From the empty registry, after any sequence of requests every stored entry has a
  non-empty key without white space at its ends, a name and a link without white space at
  their ends, and a link that \<open>new URL\<close> accepts; every request preserves this.
\<close>

theorem stored_entries_well_formed:
  "store_ok URL_ok (handle_all JSON_parse URL_ok evs [])
   \<and> (store_ok URL_ok st \<longrightarrow> store_ok URL_ok (snd (handler JSON_parse URL_ok ev st)))"
proof -
  have "store_ok URL_ok []"
    by (simp add: store_ok_def)
  then show ?thesis
    by (simp add: handle_all_store_ok handler_store_ok)
qed

theorem stored_entries_well_formed_witness:
  "handle_all JSON_parse_excerpt URL_ok_excerpt
     [request ''POST'' ''/.netlify/functions/api/clients'' (Some bolt_json),
      request ''POST'' ''/.netlify/functions/api/clients'' (Some acme_bad_link_json),
      request ''POST'' ''/.netlify/functions/api/clients'' (Some acme_json)] []
     = [(js ''Bolt'', \<lparr>name = js ''Bolt'', downloadLink = js ''https://x.test/b.zip''\<rparr>),
        (js ''Acme'', \<lparr>name = js ''Acme'', downloadLink = js ''https://x.test/a.zip''\<rparr>)]
   \<and> store_ok URL_ok_excerpt
       [(js ''Bolt'', \<lparr>name = js ''Bolt'', downloadLink = js ''https://x.test/b.zip''\<rparr>),
        (js ''Acme'', \<lparr>name = js ''Acme'', downloadLink = js ''https://x.test/a.zip''\<rparr>)]
   \<and> store_ok URL_ok_excerpt
       (snd (handler JSON_parse_excerpt URL_ok_excerpt
          (request ''PUT'' ''/.netlify/functions/api/clients/Acme'' (Some acme_corp_json))
          [(js ''Bolt'', \<lparr>name = js ''Bolt'', downloadLink = js ''https://x.test/b.zip''\<rparr>),
           (js ''Acme'', \<lparr>name = js ''Acme'', downloadLink = js ''https://x.test/a.zip''\<rparr>)]))"
proof -
  let ?evs = "[request ''POST'' ''/.netlify/functions/api/clients'' (Some bolt_json),
      request ''POST'' ''/.netlify/functions/api/clients'' (Some acme_bad_link_json),
      request ''POST'' ''/.netlify/functions/api/clients'' (Some acme_json)]"
  let ?st = "[(js ''Bolt'', \<lparr>name = js ''Bolt'', downloadLink = js ''https://x.test/b.zip''\<rparr>),
        (js ''Acme'', \<lparr>name = js ''Acme'', downloadLink = js ''https://x.test/a.zip''\<rparr>)]"
  have run: "handle_all JSON_parse_excerpt URL_ok_excerpt ?evs [] = ?st"
    by (simp add: eval_defs)
  from stored_entries_well_formed
    [of URL_ok_excerpt JSON_parse_excerpt ?evs ?st
        "request ''PUT'' ''/.netlify/functions/api/clients/Acme'' (Some acme_corp_json)"]
  show ?thesis
    by (simp add: run del: handle_all.simps)
qed

end
